theory Spec2Isabelle
  imports Complex_Main "HOL-Library.Word" "HOL-Library.Signed_Division"
begin

section \<open>Machine types\<close>

text \<open>
  The fixed-width integers of the source are words: \<open>int8_t\<close> and \<open>uint8_t\<close> are
  \<open>8 word\<close>, \<open>int16_t\<close> is \<open>16 word\<close>, \<open>int32_t\<close> is \<open>32 word\<close>; \<open>sint\<close> reads a
  signed one, \<open>unat\<close> an unsigned one. A subtraction the source performs in
  \<open>int32_t\<close> is the subtraction on \<open>32 word\<close>: C++ gives a signed overflow no
  defined result, and it is taken to wrap around, as it does on the two's
  complement targets of the library. A subtraction the source performs in
  \<open>int64_t\<close> is the subtraction on \<open>int\<close>, since a difference of two 32-bit
  values always fits. Division of signed integers truncates towards zero
  (\<open>sdiv\<close>).

  A \<open>const char*\<close> label is compared by address in the source
  (\<open>current_top_label != previous_top_label_\<close>), so a label is the address of its
  string.
\<close>

type_synonym int8_t = "8 word"
type_synonym uint8_t = "8 word"
type_synonym int16_t = "16 word"
type_synonym int32_t = "32 word"
type_synonym cstr = nat

definition INT32_MIN :: int32_t where
  "INT32_MIN = word_of_int (- (2 ^ 31))"

definition INT32_MAX :: int where
  "INT32_MAX = 2 ^ 31 - 1"

section \<open>TfLiteResultsQueue\<close>

text \<open>
  The queue of previous results: an array of \<open>kMaxResults\<close> slots, the index of the
  front slot and the number of slots in use. Isabelle admits no name that ends in
  an underscore, so the members \<open>time_\<close>, \<open>results_\<close>, \<open>front_index_\<close> and
  \<open>size_\<close> are the fields \<open>time\<close>, \<open>results\<close>, \<open>front_index\<close> and
  \<open>queue_size\<close>. \<open>front_index_\<close> and \<open>size_\<close> are \<open>int\<close> in the source; they
  start at 0 and are only changed by the guarded increment and decrement below, so
  they are natural numbers here. A \<open>Result\<close> holds its scores by value, as the
  array member of the template version (\<open>PreviousResultsQueue<N>::Result\<close>) does.
  In \<open>TfLiteAudioStream.h\<close> a \<open>Result\<close> keeps them in a heap array behind a
  pointer; there the field \<open>scores\<close> is what the array held when the result was
  built, and what a later reader finds behind the pointer is another matter (see
  \<open>processLatestResults_freed\<close> below). A slot that was never written holds
  zeros.
\<close>

definition kMaxResults :: nat where
  "kMaxResults = 50"

record Result =
  time :: int32_t
  scores :: "int8_t list"

record TfLiteResultsQueue =
  results :: "Result list"
  front_index :: nat
  queue_size :: nat

definition empty_queue :: "TfLiteResultsQueue \<Rightarrow> bool" where
  "empty_queue q = (queue_size q = 0)"

definition front :: "TfLiteResultsQueue \<Rightarrow> Result" where
  "front q = results q ! front_index q"

text \<open>\<open>back()\<close> yields a reference; \<open>back_index\<close> is the slot it refers to.\<close>

definition back_index :: "TfLiteResultsQueue \<Rightarrow> int" where
  "back_index q =
     (let back_index = int (front_index q) + (int (queue_size q) - 1)
      in if back_index \<ge> int kMaxResults then back_index - int kMaxResults else back_index)"

definition push_back :: "TfLiteResultsQueue \<Rightarrow> Result \<Rightarrow> TfLiteResultsQueue" where
  "push_back q entry =
     (if queue_size q \<ge> kMaxResults then q
      else let q' = q\<lparr>queue_size := queue_size q + 1\<rparr>
           in q'\<lparr>results := (results q')[nat (back_index q') := entry]\<rparr>)"

definition pop_front :: "TfLiteResultsQueue \<Rightarrow> TfLiteResultsQueue" where
  "pop_front q =
     (if queue_size q \<le> 0 then q
      else let f = front_index q + 1;
               f' = (if f \<ge> kMaxResults then 0 else f)
           in q\<lparr>front_index := f', queue_size := queue_size q - 1\<rparr>)"

text \<open>
  \<open>from_front\<close> is only called with \<open>0 \<le> offset < size_\<close> by the averaging loop;
  an offset beyond the end is replaced by \<open>queue_size - 1\<close>, as in the source.
\<close>

definition from_front :: "TfLiteResultsQueue \<Rightarrow> nat \<Rightarrow> Result" where
  "from_front q offset =
     (let offset' = (if offset \<ge> queue_size q then int (queue_size q) - 1 else int offset);
          index = int (front_index q) + offset';
          index' = (if index \<ge> int kMaxResults then index - int kMaxResults else index)
      in results q ! nat index')"

section \<open>TfLiteMicroSpeechRecognizeCommands\<close>

text \<open>
  The members of \<open>TfLiteConfig\<close> that the recognizer reads. \<open>setCategories\<close> sets
  the label array and \<open>kCategoryCount\<close> together, so the configuration holds the
  list of label addresses and \<open>categoryCount\<close> is its length.
\<close>

record TfLiteConfig =
  average_window_duration_ms :: int32_t
  detection_threshold :: uint8_t
  suppression_ms :: int32_t
  minimum_count :: int32_t
  labels :: "cstr list"

definition categoryCount :: "TfLiteConfig \<Rightarrow> nat" where
  "categoryCount c = length (labels c)"

text \<open>The parts of a \<open>TfLiteTensor\<close> that \<open>processLatestResults\<close> inspects.\<close>

datatype TfLiteType = kTfLiteFloat32 | kTfLiteInt8 | kTfLiteOtherType

record TfLiteTensor =
  dims :: "int list"
  tensor_type :: TfLiteType
  data_int8 :: "int8_t list"

text \<open>
  The state of \<open>TfLiteMicroSpeechRecognizeCommands\<close> (the class
  \<open>RecognizeCommands<N>\<close> of the template version, with the same members and
  the same \<open>ProcessLatestResults\<close>).
\<close>

record RecognizeCommands =
  cfg :: TfLiteConfig
  kCategoryCount :: nat
  started :: bool
  previous_results :: TfLiteResultsQueue
  previous_top_label :: cstr
  previous_top_label_time :: int32_t

text \<open>
  Every failure of the source returns \<open>kTfLiteError\<close> after logging its cause; the
  causes are kept apart here. \<open>DivisionByZero\<close> stands for the one place where the
  source has no defined result: \<open>average_scores[i] /= how_many_results\<close> with an
  empty window, which needs \<open>minimum_count \<le> 0\<close>.
\<close>

datatype error = NotStarted | ShapeMismatch | TypeMismatch | OutOfOrder | DivisionByZero

text \<open>
  The constructor; \<open>silence\<close> is the address of its string literal. The member
  \<open>cfg\<close> starts with the default values of \<open>TfLiteConfig\<close>, without labels.
\<close>

definition default_config :: TfLiteConfig where
  "default_config =
     \<lparr>average_window_duration_ms = 1000, detection_threshold = 200,
      suppression_ms = 1500, minimum_count = 3, labels = []\<rparr>"

definition new_Result :: "nat \<Rightarrow> Result" where
  "new_Result n = \<lparr>time = 0, scores = replicate n 0\<rparr>"

definition new_RecognizeCommands :: "cstr \<Rightarrow> RecognizeCommands" where
  "new_RecognizeCommands silence =
     \<lparr>cfg = default_config, kCategoryCount = 0, started = False,
      previous_results =
        \<lparr>results = replicate kMaxResults (new_Result 0), front_index = 0, queue_size = 0\<rparr>,
      previous_top_label = silence,
      previous_top_label_time = INT32_MIN\<rparr>"

text \<open>
  \<open>begin\<close> stores the configuration and the category count before it checks
  them; the queue's \<open>begin\<close> gives every slot a fresh score array and leaves the
  times and the indices as they are. The check of \<open>cfg.labels\<close> against
  \<open>nullptr\<close> cannot fail once the count is not 0, since \<open>setCategories\<close> sets both.
\<close>

definition queue_begin :: "TfLiteResultsQueue \<Rightarrow> nat \<Rightarrow> TfLiteResultsQueue" where
  "queue_begin q n = q\<lparr>results := map (\<lambda>r. r\<lparr>scores := replicate n 0\<rparr>) (results q)\<rparr>"

definition begin_recognizer :: "RecognizeCommands \<Rightarrow> TfLiteConfig \<Rightarrow> bool \<times> RecognizeCommands" where
  "begin_recognizer s c =
     (let s1 = s\<lparr>cfg := c, kCategoryCount := categoryCount c\<rparr>
      in if kCategoryCount s1 = 0 then (False, s1)
         else (True, s1\<lparr>previous_results := queue_begin (previous_results s1) (kCategoryCount s1),
                         started := True\<rparr>))"

text \<open>The pruning loop: results older than the averaging window leave at the front.\<close>

function prune :: "TfLiteResultsQueue \<Rightarrow> int \<Rightarrow> TfLiteResultsQueue" where
  "prune q time_limit =
     (if \<not> empty_queue q \<and> sint (time (front q)) < time_limit
      then prune (pop_front q) time_limit else q)"
  by pat_completeness auto
termination
  by (relation "measure (\<lambda>(q, l). queue_size q)") (auto simp: pop_front_def empty_queue_def Let_def)

text \<open>
  The averaging loops. For each result of the window, from the front, the inner
  loop adds \<open>scores[i] + 128\<close> to \<open>average_scores[i]\<close> (and stores it at offset 0);
  the array is then divided by \<open>how_many_results\<close>. The sums are not negative, so
  the truncating division of the source is \<open>div\<close>.
\<close>

definition add_scores :: "nat \<Rightarrow> nat \<Rightarrow> int list \<Rightarrow> int8_t list \<Rightarrow> int list" where
  "add_scores n offset average_scores sc =
     map (\<lambda>i. if offset = 0 then sint (sc ! i) + 128
               else average_scores ! i + (sint (sc ! i) + 128)) [0..<n]"

definition sum_scores :: "TfLiteResultsQueue \<Rightarrow> nat \<Rightarrow> int list" where
  "sum_scores q n =
     foldl (\<lambda>average_scores offset. add_scores n offset average_scores (scores (from_front q offset)))
       (replicate n 0) [0..<queue_size q]"

definition average_scores :: "TfLiteResultsQueue \<Rightarrow> nat \<Rightarrow> int list" where
  "average_scores q n = map (\<lambda>s. s div int (queue_size q)) (sum_scores q n)"

text \<open>The search for the highest average: the pair is (\<open>current_top_index\<close>, \<open>current_top_score\<close>).\<close>

definition current_top :: "int list \<Rightarrow> nat \<Rightarrow> nat \<times> int" where
  "current_top avg n =
     foldl (\<lambda>(current_top_index, current_top_score) i.
              if avg ! i > current_top_score then (i, avg ! i)
              else (current_top_index, current_top_score))
       (0, 0) [0..<n]"

definition time_since_last_top :: "RecognizeCommands \<Rightarrow> int32_t \<Rightarrow> int" where
  "time_since_last_top s current_time_ms =
     (if previous_top_label s = labels (cfg s) ! 0 \<or> previous_top_label_time s = INT32_MIN
      then INT32_MAX
      else sint (current_time_ms - previous_top_label_time s))"

text \<open>
  The checks that end a call early with the previous label, on the window that
  survived the pruning.
\<close>

definition too_few_results :: "TfLiteConfig \<Rightarrow> TfLiteResultsQueue \<Rightarrow> int32_t \<Rightarrow> bool" where
  "too_few_results c q current_time_ms =
     (let how_many_results = int (queue_size q);
          earliest_time = sint (time (front q));
          samples_duration = sint current_time_ms - earliest_time
      in how_many_results < sint (minimum_count c)
         \<or> samples_duration < sint (average_window_duration_ms c) sdiv 4)"

text \<open>
  \<open>processLatestResults\<close> returns the new state with the three output parameters
  (\<open>found_command\<close>, \<open>score\<close>, \<open>is_new_command\<close>), or the error; on an error the
  state and the output parameters are as they were. Its averaging loop reads the
  scores that were stored by value: this is \<open>ProcessLatestResults\<close> of the template
  version, and \<open>processLatestResults\<close> of \<open>TfLiteAudioStream.h\<close> as far as no
  stored score is read, that is on every error and on the early exit.
\<close>

type_synonym decision = "cstr \<times> uint8_t \<times> bool"

definition processLatestResults ::
  "RecognizeCommands \<Rightarrow> TfLiteTensor \<Rightarrow> int32_t \<Rightarrow> error + (RecognizeCommands \<times> decision)" where
  "processLatestResults s latest_results current_time_ms =
     (if \<not> started s then Inl NotStarted
      else if length (dims latest_results) \<noteq> 2 \<or> dims latest_results ! 0 \<noteq> 1
              \<or> dims latest_results ! 1 \<noteq> int (kCategoryCount s) then Inl ShapeMismatch
      else if tensor_type latest_results \<noteq> kTfLiteInt8 then Inl TypeMismatch
      else if \<not> empty_queue (previous_results s)
              \<and> current_time_ms <s time (front (previous_results s)) then Inl OutOfOrder
      else
        let q1 = push_back (previous_results s)
                   \<lparr>time = current_time_ms,
                    scores = take (kCategoryCount s) (data_int8 latest_results)\<rparr>;
            time_limit = sint (current_time_ms - average_window_duration_ms (cfg s));
            q2 = prune q1 time_limit;
            s2 = s\<lparr>previous_results := q2\<rparr>
        in if too_few_results (cfg s) q2 current_time_ms
           then Inr (s2, (previous_top_label s, 0, False))
           else if queue_size q2 = 0 then Inl DivisionByZero
           else
             let (current_top_index, current_top_score) =
                   current_top (average_scores q2 (kCategoryCount s)) (kCategoryCount s);
                 current_top_label = labels (cfg s) ! current_top_index
             in if current_top_score > int (unat (detection_threshold (cfg s)))
                   \<and> (current_top_label \<noteq> previous_top_label s
                        \<or> time_since_last_top s current_time_ms > sint (suppression_ms (cfg s)))
                then Inr (s2\<lparr>previous_top_label := current_top_label,
                              previous_top_label_time := current_time_ms\<rparr>,
                          (current_top_label, word_of_int current_top_score, True))
                else Inr (s2, (current_top_label, word_of_int current_top_score, False)))"

text \<open>
  Feeding a sequence of results, one call each; the decisions come back in call
  order and a failed call leaves the state as it was.
\<close>

fun feed ::
  "RecognizeCommands \<Rightarrow> (TfLiteTensor \<times> int32_t) list \<Rightarrow> (error + decision) list \<times> RecognizeCommands" where
  "feed s [] = ([], s)"
| "feed s ((r, t) # rest) =
     (case processLatestResults s r t of
        Inl e \<Rightarrow> (let (ds, s') = feed s rest in (Inl e # ds, s'))
      | Inr (s1, d) \<Rightarrow> (let (ds, s') = feed s1 rest in (Inr d # ds, s')))"

text \<open>
  In \<open>TfLiteAudioStream.h\<close> the call
  \<open>previous_results_.push_back({kCategoryCount, current_time_ms, ...})\<close> builds a
  temporary \<open>Result\<close> with a fresh score array; \<open>back() = entry\<close> copies its
  members, the pointer among them, since \<open>Result\<close> declares no assignment; and the
  destructor of the temporary frees the array at the end of the statement. Every
  stored result so points to a freed array, and the averaging loop, which copies
  each result with \<open>memmove\<close> from that array, reads freed memory. What it finds
  there is not determined by the program: it is the parameter \<open>freed\<close>, where
  \<open>freed q offset\<close> are the scores the loop finds for the result at \<open>offset\<close> of
  the window \<open>q\<close>. Everything else is as in \<open>processLatestResults\<close>, which is the
  instance \<open>by_value\<close>.
\<close>

type_synonym freed_scores = "TfLiteResultsQueue \<Rightarrow> nat \<Rightarrow> int8_t list"

definition by_value :: freed_scores where
  "by_value q offset = scores (from_front q offset)"

definition sum_scores_freed :: "freed_scores \<Rightarrow> TfLiteResultsQueue \<Rightarrow> nat \<Rightarrow> int list" where
  "sum_scores_freed freed q n =
     foldl (\<lambda>average_scores offset. add_scores n offset average_scores (freed q offset))
       (replicate n 0) [0..<queue_size q]"

definition average_scores_freed :: "freed_scores \<Rightarrow> TfLiteResultsQueue \<Rightarrow> nat \<Rightarrow> int list" where
  "average_scores_freed freed q n =
     map (\<lambda>s. s div int (queue_size q)) (sum_scores_freed freed q n)"

definition processLatestResults_freed ::
  "freed_scores \<Rightarrow> RecognizeCommands \<Rightarrow> TfLiteTensor \<Rightarrow> int32_t
     \<Rightarrow> error + (RecognizeCommands \<times> decision)" where
  "processLatestResults_freed freed s latest_results current_time_ms =
     (if \<not> started s then Inl NotStarted
      else if length (dims latest_results) \<noteq> 2 \<or> dims latest_results ! 0 \<noteq> 1
              \<or> dims latest_results ! 1 \<noteq> int (kCategoryCount s) then Inl ShapeMismatch
      else if tensor_type latest_results \<noteq> kTfLiteInt8 then Inl TypeMismatch
      else if \<not> empty_queue (previous_results s)
              \<and> current_time_ms <s time (front (previous_results s)) then Inl OutOfOrder
      else
        let q1 = push_back (previous_results s)
                   \<lparr>time = current_time_ms,
                    scores = take (kCategoryCount s) (data_int8 latest_results)\<rparr>;
            time_limit = sint (current_time_ms - average_window_duration_ms (cfg s));
            q2 = prune q1 time_limit;
            s2 = s\<lparr>previous_results := q2\<rparr>
        in if too_few_results (cfg s) q2 current_time_ms
           then Inr (s2, (previous_top_label s, 0, False))
           else if queue_size q2 = 0 then Inl DivisionByZero
           else
             let (current_top_index, current_top_score) =
                   current_top (average_scores_freed freed q2 (kCategoryCount s))
                     (kCategoryCount s);
                 current_top_label = labels (cfg s) ! current_top_index
             in if current_top_score > int (unat (detection_threshold (cfg s)))
                   \<and> (current_top_label \<noteq> previous_top_label s
                        \<or> time_since_last_top s current_time_ms > sint (suppression_ms (cfg s)))
                then Inr (s2\<lparr>previous_top_label := current_top_label,
                              previous_top_label_time := current_time_ms\<rparr>,
                          (current_top_label, word_of_int current_top_score, True))
                else Inr (s2, (current_top_label, word_of_int current_top_score, False)))"

text \<open>A sequence of calls, each with what its averaging loop finds in the freed arrays.\<close>

fun feed_freed ::
  "RecognizeCommands \<Rightarrow> (freed_scores \<times> TfLiteTensor \<times> int32_t) list
     \<Rightarrow> (error + decision) list \<times> RecognizeCommands" where
  "feed_freed s [] = ([], s)"
| "feed_freed s ((freed, r, t) # rest) =
     (case processLatestResults_freed freed s r t of
        Inl e \<Rightarrow> (let (ds, s') = feed_freed s rest in (Inl e # ds, s'))
      | Inr (s1, d) \<Rightarrow> (let (ds, s') = feed_freed s1 rest in (Inr d # ds, s')))"

section \<open>TfQuantizer\<close>

text \<open>
  A \<open>float\<close> is the real number it denotes (finite values only). Comparison and
  negation are exact on floats; division, addition, subtraction and
  multiplication round their exact result to the float format, which is the
  function \<open>rnd\<close>, a parameter of the model. The conversion of a float to
  \<open>int8_t\<close> drops the fraction (it truncates towards zero) and has no defined
  result when the truncated value is not an \<open>int8_t\<close>: that is \<open>None\<close>. So is
  the quotient by a \<open>scale\<close> of zero, which is no finite value.
\<close>

definition float_to_int8 :: "real \<Rightarrow> int8_t option" where
  "float_to_int8 x =
     (let k = (if x \<ge> 0 then \<lfloor>x\<rfloor> else \<lceil>x\<rceil>)
      in if - 128 \<le> k \<and> k \<le> 127 then Some (word_of_int k) else None)"

definition quantize :: "(real \<Rightarrow> real) \<Rightarrow> real \<Rightarrow> real \<Rightarrow> real \<Rightarrow> int8_t option" where
  "quantize rnd v scale zero_point =
     (if scale = 0 \<and> zero_point = 0 then float_to_int8 v
      else if scale = 0 then None
      else float_to_int8 (rnd (rnd (v / scale) + zero_point)))"

definition dequantize :: "(real \<Rightarrow> real) \<Rightarrow> int8_t \<Rightarrow> real \<Rightarrow> real \<Rightarrow> real" where
  "dequantize rnd v scale zero_point =
     (if scale = 0 \<and> zero_point = 0 then real_of_int (sint v)
      else rnd (rnd (real_of_int (sint v) - zero_point) * scale))"

definition clip :: "real \<Rightarrow> real \<Rightarrow> real" where
  "clip v rng =
     (if v \<ge> 0 then (if v > rng then rng else v)
      else (if - v < - rng then - rng else v))"

definition dequantizeToNewRange :: "(real \<Rightarrow> real) \<Rightarrow> int8_t \<Rightarrow> real \<Rightarrow> real \<Rightarrow> real \<Rightarrow> real" where
  "dequantizeToNewRange rnd v scale zero_point new_range =
     (let deq = rnd (rnd (real_of_int (sint v) - zero_point) * scale)
      in clip (rnd (deq * new_range)) new_range)"

text \<open>
  The rounding of the IEEE binary32 format, for one instance of \<open>rnd\<close>: a value
  other than 0 with \<open>2 ^ e \<le> \<bar>v\<bar> < 2 ^ (e + 1)\<close> goes to the nearest multiple of
  \<open>2 ^ (e - 23)\<close> (a significand of 24 bits), and a value halfway between two
  multiples to the even one. The exponent is not bounded here, so the function is
  the rounding of the format on results whose magnitude is in its normal range,
  from \<open>2 ^ -126\<close> up to the largest float.
\<close>

definition round_even :: "real \<Rightarrow> int" where
  "round_even v =
     (let f = \<lfloor>v\<rfloor>; r = v - real_of_int f
      in if r < 1 / 2 then f else if 1 / 2 < r then f + 1 else if even f then f else f + 1)"

function exponent_up :: "real \<Rightarrow> int" where
  "exponent_up m = (if 2 \<le> m then exponent_up (m / 2) + 1 else 0)"
  by pat_completeness auto
termination
proof (relation "measure (\<lambda>m. nat \<lfloor>m\<rfloor>)")
  show "wf (measure (\<lambda>m :: real. nat \<lfloor>m\<rfloor>))"
    by simp
next
  fix m :: real
  assume m: "2 \<le> m"
  have "m / 2 \<le> m - 1"
    using m by simp
  then have "\<lfloor>m / 2\<rfloor> \<le> \<lfloor>m - 1\<rfloor>"
    by (rule floor_mono)
  then have "\<lfloor>m / 2\<rfloor> < \<lfloor>m\<rfloor>"
    by simp
  moreover have "0 < \<lfloor>m\<rfloor>"
    using m by simp
  ultimately show "(m / 2, m) \<in> measure (\<lambda>m. nat \<lfloor>m\<rfloor>)"
    by simp
qed

function exponent_down :: "real \<Rightarrow> int" where
  "exponent_down m = (if 0 < m \<and> m < 1 then exponent_down (2 * m) - 1 else 0)"
  by pat_completeness auto
termination
proof (relation "measure (\<lambda>m. nat \<lfloor>1 / m\<rfloor>)")
  show "wf (measure (\<lambda>m :: real. nat \<lfloor>1 / m\<rfloor>))"
    by simp
next
  fix m :: real
  assume m: "0 < m \<and> m < 1"
  then have big: "1 < 1 / m"
    by simp
  have "\<lfloor>1 / (2 * m)\<rfloor> < \<lfloor>1 / m\<rfloor>"
  proof (cases "2 \<le> 1 / m")
    case True
    then have "1 / (2 * m) \<le> 1 / m - 1"
      by (simp add: field_simps)
    then have "\<lfloor>1 / (2 * m)\<rfloor> \<le> \<lfloor>1 / m - 1\<rfloor>"
      by (rule floor_mono)
    then show ?thesis
      by simp
  next
    case False
    then have "1 / (2 * m) < 1"
      using m by (simp add: field_simps)
    moreover have "0 \<le> 1 / (2 * m)"
      using m by simp
    ultimately have "\<lfloor>1 / (2 * m)\<rfloor> = 0"
      by (simp add: floor_eq_iff)
    moreover have "1 \<le> \<lfloor>1 / m\<rfloor>"
      using big by (simp add: le_floor_iff)
    ultimately show ?thesis
      by simp
  qed
  moreover have "0 < \<lfloor>1 / m\<rfloor>"
    using big by (simp add: less_floor_iff)
  ultimately show "(2 * m, m) \<in> measure (\<lambda>m. nat \<lfloor>1 / m\<rfloor>)"
    by simp
qed

definition binary32 :: "real \<Rightarrow> real" where
  "binary32 v =
     (if v = 0 then 0
      else let e = (if 1 \<le> \<bar>v\<bar> then exponent_up \<bar>v\<bar> else exponent_down \<bar>v\<bar>);
               ulp = (if 23 \<le> e then 2 ^ nat (e - 23) else 1 / 2 ^ nat (23 - e))
           in ulp * real_of_int (round_even (v / ulp)))"

section \<open>RingBuffer\<close>

text \<open>
  Modelled from the spec: the \<open>RingBuffer<int16_t>\<close> of \<open>AudioTools/Buffers.h\<close>,
  which is not among the sources. It is a bounded FIFO of fixed capacity:
  \<open>write\<close> appends one sample if \<open>availableForWrite() > 0\<close> and is rejected
  otherwise, \<open>readArray\<close> drains up to the requested number of samples in FIFO
  order and returns how many it got (here the samples themselves), \<open>writeArray\<close>
  writes samples one by one. The samples are kept oldest first. The method
  \<open>write\<close> is \<open>ring_write\<close> here.
\<close>

record RingBuffer =
  max_size :: nat
  buffer :: "int16_t list"

definition availableForWrite :: "RingBuffer \<Rightarrow> nat" where
  "availableForWrite rb = max_size rb - length (buffer rb)"

definition ring_write :: "RingBuffer \<Rightarrow> int16_t \<Rightarrow> bool \<times> RingBuffer" where
  "ring_write rb x =
     (if availableForWrite rb > 0 then (True, rb\<lparr>buffer := buffer rb @ [x]\<rparr>) else (False, rb))"

definition readArray :: "RingBuffer \<Rightarrow> nat \<Rightarrow> int16_t list \<times> RingBuffer" where
  "readArray rb n = (take n (buffer rb), rb\<lparr>buffer := drop n (buffer rb)\<rparr>)"

definition writeArray :: "RingBuffer \<Rightarrow> int16_t list \<Rightarrow> RingBuffer" where
  "writeArray rb xs = fold (\<lambda>x b. snd (ring_write b x)) xs rb"

section \<open>Feature generation\<close>

text \<open>
  \<open>value_div\<close> is \<open>static_cast<int32_t>((25.6f * 26.0f) + 0.5f)\<close>. A value of the
  frontend is a 16-bit integer; the arithmetic is the source's 32-bit arithmetic,
  which cannot overflow on 16-bit values, with its truncating division.
\<close>

definition value_scale :: int where
  "value_scale = 256"

definition value_div :: int where
  "value_div = \<lfloor>(25.6 * 26.0 + 0.5 :: real)\<rfloor>"

definition quantize_feature :: "int \<Rightarrow> int8_t" where
  "quantize_feature raw =
     (let v = ((raw * value_scale) + (value_div sdiv 2)) sdiv value_div;
          v = v - 128;
          v = (if v < - 128 then - 128 else v);
          v = (if v > 127 then 127 else v)
      in word_of_int v)"

text \<open>
  \<open>FrontendProcessSamples\<close> belongs to the TensorFlow micro frontend, an external
  library; it is the parameter \<open>frontend\<close>, which takes the frontend state and
  the samples to the new state and the values of \<open>frontend_output\<close>.
  \<open>generateMicroFeatures\<close> stores the quantized values from \<open>output\<close> on, where
  \<open>output\<close> is an offset into the feature array \<open>mem\<close>. Storing past the end of
  the array has no defined result (\<open>None\<close>).
\<close>

type_synonym 'f frontend = "'f \<Rightarrow> int16_t list \<Rightarrow> 'f \<times> int list"

definition generateMicroFeatures ::
  "'f frontend \<Rightarrow> 'f \<Rightarrow> int16_t list \<Rightarrow> int8_t list \<Rightarrow> nat \<Rightarrow> ('f \<times> int8_t list) option" where
  "generateMicroFeatures frontend st input mem output =
     (let (st', frontend_output) = frontend st input
      in if output + length frontend_output > length mem then None
         else Some (st', fold (\<lambda>i m. m[output + i := quantize_feature (frontend_output ! i)])
                           [0..<length frontend_output] mem))"

text \<open>\<open>memmove\<close> of \<open>n\<close> bytes within one array, from offset \<open>src\<close> to offset \<open>dst\<close>.\<close>

definition memmove :: "'a list \<Rightarrow> nat \<Rightarrow> nat \<Rightarrow> nat \<Rightarrow> 'a list option" where
  "memmove mem dst src n =
     (if src + n > length mem \<or> dst + n > length mem then None
      else Some (take dst mem @ take n (drop src mem) @ drop (dst + n) mem))"

text \<open>
  The feature array holds its slices one after the other; \<open>feature_slice n mem k\<close>
  is slice \<open>k\<close> of an array with \<open>n\<close> entries per slice.
\<close>

definition feature_slice :: "nat \<Rightarrow> int8_t list \<Rightarrow> nat \<Rightarrow> int8_t list" where
  "feature_slice n mem k = take n (drop (k * n) mem)"

section \<open>TfLiteMicroSpeachWriter\<close>

text \<open>
  The writer with the members that \<open>write1\<close> and \<open>addSlice\<close> use, the
  configuration values among them. \<open>kKeepSampleSize\<close> is
  \<open>kMaxAudioSampleSize - kStrideSampleSize\<close>.
\<close>

record 'f TfLiteMicroSpeachWriter =
  channels :: int
  kFeatureSliceSize :: nat
  kFeatureSliceCount :: nat
  kMaxAudioSampleSize :: nat
  kStrideSampleSize :: nat
  kKeepSampleSize :: nat
  p_feature_data :: "int8_t list"
  p_audio_samples :: "int16_t list"
  p_buffer :: RingBuffer
  g_micro_features_state :: 'f
  last_value :: int16_t
  channel :: int8_t

text \<open>The average of two channels: \<open>(sample / 2) + (last_value / 2)\<close>, in \<open>int\<close>.\<close>

definition downmix :: "int16_t \<Rightarrow> int16_t \<Rightarrow> int16_t" where
  "downmix a b = word_of_int ((sint a sdiv 2) + (sint b sdiv 2))"

text \<open>
  \<open>write1\<close>. In the source the \<open>else\<close> of \<open>if (channel == 0)\<close> has no braces: it
  governs the call of \<open>p_buffer->write\<close> only, and \<open>channel = 0\<close> follows both
  branches. The result is \<open>p_buffer->availableForWrite() > 0\<close>.
\<close>

definition write1 :: "'f TfLiteMicroSpeachWriter \<Rightarrow> int16_t \<Rightarrow> bool \<times> 'f TfLiteMicroSpeachWriter" where
  "write1 w sample =
     (let w' =
        (if channels w = 1 then w\<lparr>p_buffer := snd (ring_write (p_buffer w) sample)\<rparr>
         else
           let w1 = (if channel w = 0 then w\<lparr>last_value := sample, channel := 1\<rparr>
                     else w\<lparr>p_buffer := snd (ring_write (p_buffer w) (downmix sample (last_value w)))\<rparr>)
           in w1\<lparr>channel := 0\<rparr>)
      in (availableForWrite (p_buffer w') > 0, w'))"

text \<open>
  The samples of one call of the stream's \<open>write\<close>, handed to \<open>write1\<close> in order;
  the list of results tells whether any call reported a full buffer.
\<close>

fun write_samples ::
  "'f TfLiteMicroSpeachWriter \<Rightarrow> int16_t list \<Rightarrow> bool list \<times> 'f TfLiteMicroSpeachWriter" where
  "write_samples w [] = ([], w)"
| "write_samples w (x # xs) =
     (let (ok, w1) = write1 w x; (oks, w2) = write_samples w1 xs in (ok # oks, w2))"

text \<open>
  \<open>addSlice\<close>: the feature array moves up by one slice, the ring buffer is drained
  into \<open>p_audio_samples\<close>, the samples after the stride go back into the ring
  buffer, and the features of the samples read are stored in the last slice.
  \<open>None\<close>: the source leaves the bounds of the feature array.
\<close>

definition addSlice :: "'f frontend \<Rightarrow> 'f TfLiteMicroSpeachWriter \<Rightarrow> 'f TfLiteMicroSpeachWriter option" where
  "addSlice frontend w =
     (if kFeatureSliceCount w = 0 then None
      else
        case memmove (p_feature_data w) 0 (kFeatureSliceSize w)
               ((kFeatureSliceCount w - 1) * kFeatureSliceSize w) of
          None \<Rightarrow> None
        | Some moved \<Rightarrow>
            let (got, rb1) = readArray (p_buffer w) (kMaxAudioSampleSize w);
                audio_samples_size = length got;
                samples = got @ drop audio_samples_size (p_audio_samples w);
                rb2 = writeArray rb1 (take (kKeepSampleSize w) (drop (kStrideSampleSize w) samples));
                new_slice_data = (kFeatureSliceCount w - 1) * kFeatureSliceSize w
            in case generateMicroFeatures frontend (g_micro_features_state w)
                      (take audio_samples_size samples) moved new_slice_data of
                 None \<Rightarrow> None
               | Some (st', feat) \<Rightarrow>
                   Some (w\<lparr>p_feature_data := feat, p_audio_samples := samples,
                           p_buffer := rb2, g_micro_features_state := st'\<rparr>))"

section \<open>TfLiteAudioFeatureProvider\<close>

text \<open>
  The feature provider of the template version of the stream. Its \<open>write\<close> takes
  whole frames from the input: with one channel the sample itself, otherwise the
  average of the first two samples of the frame. Before each frame a full ring
  buffer is turned into a slice. \<open>None\<close>: the loop reads past the end of the
  input, does not advance (\<open>kAudioChannels = 0\<close>), or \<open>addSlice\<close> fails.
\<close>

record 'f TfLiteAudioFeatureProvider =
  kAudioChannels :: nat
  provider_kMaxAudioSampleSize :: nat
  provider_kFeatureSliceSize :: nat
  provider_kFeatureSliceCount :: nat
  feature_data :: "int8_t list"
  provider_p_buffer :: RingBuffer
  provider_g_micro_features_state :: 'f

definition provider_addSlice ::
  "'f frontend \<Rightarrow> 'f TfLiteAudioFeatureProvider \<Rightarrow> 'f TfLiteAudioFeatureProvider option" where
  "provider_addSlice frontend p =
     (if provider_kFeatureSliceCount p = 0 then None
      else
        case memmove (feature_data p) 0 (provider_kFeatureSliceSize p)
               ((provider_kFeatureSliceCount p - 1) * provider_kFeatureSliceSize p) of
          None \<Rightarrow> None
        | Some moved \<Rightarrow>
            let (audio_samples, rb1) = readArray (provider_p_buffer p) (provider_kMaxAudioSampleSize p);
                new_slice_data = (provider_kFeatureSliceCount p - 1) * provider_kFeatureSliceSize p
            in case generateMicroFeatures frontend (provider_g_micro_features_state p)
                      audio_samples moved new_slice_data of
                 None \<Rightarrow> None
               | Some (st', feat) \<Rightarrow>
                   Some (p\<lparr>feature_data := feat, provider_p_buffer := rb1,
                           provider_g_micro_features_state := st'\<rparr>))"

fun provider_write ::
  "'f frontend \<Rightarrow> 'f TfLiteAudioFeatureProvider \<Rightarrow> int16_t list
     \<Rightarrow> (nat \<times> 'f TfLiteAudioFeatureProvider) option" where
  "provider_write frontend p [] = Some (0, p)"
| "provider_write frontend p (a # rest) =
     (if kAudioChannels p = 0 then None
      else
        case (if availableForWrite (provider_p_buffer p) = 0
              then map_option (Pair (1::nat)) (provider_addSlice frontend p) else Some (0, p)) of
          None \<Rightarrow> None
        | Some (k, p1) \<Rightarrow>
            if kAudioChannels p = 1
            then (case provider_write frontend
                         (p1\<lparr>provider_p_buffer := snd (ring_write (provider_p_buffer p1) a)\<rparr>) rest of
                    None \<Rightarrow> None
                  | Some (slice_count, p2) \<Rightarrow> Some (k + slice_count, p2))
            else (case rest of
                    [] \<Rightarrow> None
                  | b # _ \<Rightarrow>
                      (case provider_write frontend
                              (p1\<lparr>provider_p_buffer := snd (ring_write (provider_p_buffer p1) (downmix a b))\<rparr>)
                              (drop (kAudioChannels p - 1) rest) of
                         None \<Rightarrow> None
                       | Some (slice_count, p2) \<Rightarrow> Some (k + slice_count, p2))))"

section \<open>Example inputs\<close>

text \<open>
  A recognizer with the default parameters of \<open>TfLiteConfig\<close> and four labels
  (at the addresses 100, 108, 116 and 120; the literal of the constructor is at
  99), started by \<open>begin\<close>, and output tensors of the expected shape.
\<close>

definition demo_config :: TfLiteConfig where
  "demo_config = default_config\<lparr>labels := [100, 108, 116, 120]\<rparr>"

definition demo_start :: RecognizeCommands where
  "demo_start = snd (begin_recognizer (new_RecognizeCommands 99) demo_config)"

definition demo_tensor :: "int8_t list \<Rightarrow> TfLiteTensor" where
  "demo_tensor xs = \<lparr>dims = [1, int (length xs)], tensor_type = kTfLiteInt8, data_int8 = xs\<rparr>"

definition silence_scores :: TfLiteTensor where
  "silence_scores = demo_tensor [127, - 128, - 128, - 128]"

definition yes_scores :: TfLiteTensor where
  "yes_scores = demo_tensor [- 128, - 128, 127, - 128]"

definition no_then_yes_scores :: TfLiteTensor where
  "no_then_yes_scores = demo_tensor [- 128, - 128, 100, 127]"

text \<open>
  One way the freed arrays can look: every one of them holds the scores written
  last (the allocator hands the same block out again and again).
\<close>

definition last_written :: "int8_t list \<Rightarrow> freed_scores" where
  "last_written xs q offset = xs"

text \<open>
  Two binary32 values, about 163.75479 and 2.7292466, for a round trip through
  the quantizer.
\<close>

definition round_trip_x :: real where
  "round_trip_x = 5365917 / 32768"

definition round_trip_scale :: real where
  "round_trip_scale = 5723645 / 2097152"

definition full_queue :: TfLiteResultsQueue where
  "full_queue =
     \<lparr>results = replicate kMaxResults \<lparr>time = 7, scores = [1, 2]\<rparr>,
      front_index = 49, queue_size = kMaxResults\<rparr>"

text \<open>
  A small writer and a small feature provider: three slices of two features, a
  ring buffer of four samples, two channels; and a frontend that counts its calls
  and returns two values, the sum of the samples and their number.
\<close>

definition demo_writer :: "nat TfLiteMicroSpeachWriter" where
  "demo_writer =
     \<lparr>channels = 2, kFeatureSliceSize = 2, kFeatureSliceCount = 3,
      kMaxAudioSampleSize = 4, kStrideSampleSize = 2, kKeepSampleSize = 2,
      p_feature_data = [1, 2, 3, 4, 5, 6], p_audio_samples = [0, 0, 0, 0],
      p_buffer = \<lparr>max_size = 4, buffer = []\<rparr>,
      g_micro_features_state = 0, last_value = 0, channel = 0\<rparr>"

definition demo_provider :: "nat TfLiteAudioFeatureProvider" where
  "demo_provider =
     \<lparr>kAudioChannels = 2, provider_kMaxAudioSampleSize = 4,
      provider_kFeatureSliceSize = 2, provider_kFeatureSliceCount = 3,
      feature_data = [1, 2, 3, 4, 5, 6],
      provider_p_buffer = \<lparr>max_size = 4, buffer = []\<rparr>,
      provider_g_micro_features_state = 0\<rparr>"

definition demo_frontend :: "nat frontend" where
  "demo_frontend calls input = (Suc calls, [sum_list (map sint input), int (length input)])"

definition demo_writer_full :: "nat TfLiteMicroSpeachWriter" where
  "demo_writer_full = demo_writer\<lparr>p_buffer := \<lparr>max_size = 4, buffer = [10, 20, 30, 40]\<rparr>\<rparr>"

section \<open>The result queue\<close>

declare prune.simps [simp del]

lemma push_back_size_le: "queue_size (push_back q entry) \<le> queue_size q + 1"
  by (simp add: push_back_def Let_def)

lemma pop_front_size_le: "queue_size (pop_front q) \<le> queue_size q"
  by (simp add: pop_front_def Let_def)

lemma prune_unfold_pop:
  "\<not> empty_queue q \<Longrightarrow> sint (time (front q)) < l \<Longrightarrow> prune q l = prune (pop_front q) l"
  by (subst prune.simps) simp

lemma prune_unfold_stop:
  "empty_queue q \<or> \<not> sint (time (front q)) < l \<Longrightarrow> prune q l = q"
  by (subst prune.simps) auto

lemma prune_size_le: "queue_size (prune q l) \<le> queue_size q"
proof (induction q l rule: prune.induct)
  case (1 q l)
  show ?case
  proof (cases "\<not> empty_queue q \<and> sint (time (front q)) < l")
    case True
    then have "queue_size (prune q l) \<le> queue_size (pop_front q)"
      using 1 by (simp add: prune_unfold_pop)
    then show ?thesis
      using pop_front_size_le [of q] by simp
  next
    case False
    then show ?thesis
      by (simp add: prune_unfold_stop)
  qed
qed

lemma prune_same_or_smaller: "prune q l = q \<or> queue_size (prune q l) < queue_size q"
proof (cases "\<not> empty_queue q \<and> sint (time (front q)) < l")
  case True
  then have "queue_size (pop_front q) < queue_size q"
    by (simp add: pop_front_def Let_def empty_queue_def)
  then show ?thesis
    using True prune_size_le [of "pop_front q" l] by (simp add: prune_unfold_pop)
next
  case False
  then show ?thesis
    by (simp add: prune_unfold_stop)
qed

text \<open>
  C10. When the queue already holds \<open>kMaxResults\<close> = 50 results, \<open>push_back\<close>
  leaves it exactly as it is (same size, same front index, same entries): the new
  result is dropped, the oldest one is not evicted. So a queue within the
  capacity stays within it.
\<close>

theorem push_back_full_discards:
  "kMaxResults = 50
   \<and> (queue_size q = kMaxResults \<longrightarrow> push_back q entry = q)
   \<and> (queue_size q \<le> kMaxResults \<longrightarrow> queue_size (push_back q entry) \<le> kMaxResults)"
  by (simp add: push_back_def Let_def kMaxResults_def)

theorem push_back_full_discards_witness:
  "queue_size full_queue = kMaxResults
   \<and> push_back full_queue \<lparr>time = 9, scores = [3, 4]\<rparr> = full_queue
   \<and> queue_size (push_back full_queue \<lparr>time = 9, scores = [3, 4]\<rparr>) \<le> kMaxResults"
proof -
  have h: "queue_size full_queue = kMaxResults"
    by (simp add: full_queue_def)
  from push_back_full_discards [of full_queue "\<lparr>time = 9, scores = [3, 4]\<rparr>"] h
  show ?thesis by simp
qed

section \<open>The recognizer\<close>

lemma sint_sub_no_wrap:
  fixes a b :: int32_t
  assumes "- (2 ^ 31) \<le> sint a - sint b" and "sint a - sint b < 2 ^ 31"
  shows "sint (a - b) = sint a - sint b"
  using assms by (simp add: sint_word_ariths signed_take_bit_int_eq_self)

lemma sint_add_10:
  fixes t :: int32_t
  assumes "sint t + 10 < 2 ^ 31"
  shows "sint (t + 10) = sint t + 10"
proof -
  have "- (2 ^ 31) \<le> sint t"
    using sint_ge [of t] by simp
  with assms show ?thesis
    by (simp add: sint_word_ariths signed_take_bit_int_eq_self)
qed

text \<open>What a successful call leaves in the state besides the decision.\<close>

lemma processLatestResults_window:
  assumes "processLatestResults s lr t = Inr (s', d)"
  shows "previous_results s' =
           prune (push_back (previous_results s)
                    \<lparr>time = t, scores = take (kCategoryCount s) (data_int8 lr)\<rparr>)
                 (sint (t - average_window_duration_ms (cfg s)))
         \<and> cfg s' = cfg s \<and> kCategoryCount s' = kCategoryCount s \<and> started s' = started s"
  using assms
  by (auto simp: processLatestResults_def Let_def split: if_splits prod.splits)

text \<open>No call takes the history beyond its capacity.\<close>

lemma processLatestResults_size_bounded:
  assumes "processLatestResults s lr t = Inr (s', d)"
    and "queue_size (previous_results s) \<le> kMaxResults"
  shows "queue_size (previous_results s') \<le> kMaxResults"
proof -
  let ?q1 = "push_back (previous_results s)
               \<lparr>time = t, scores = take (kCategoryCount s) (data_int8 lr)\<rparr>"
  have "queue_size ?q1 \<le> kMaxResults"
    using assms(2) by (simp add: push_back_def Let_def)
  then have "queue_size (prune ?q1 (sint (t - average_window_duration_ms (cfg s)))) \<le> kMaxResults"
    using prune_size_le [of ?q1] by (meson order_trans)
  then show ?thesis
    using processLatestResults_window [OF assms(1)] by simp
qed

text \<open>
  A call is rejected as out of order exactly when its time is below the time of
  the entry at the front of the queue, which is the oldest one.
\<close>

lemma out_of_order_iff:
  assumes "started s" and "dims lr = [1, int (kCategoryCount s)]"
    and "tensor_type lr = kTfLiteInt8"
  shows "processLatestResults s lr t = Inl OutOfOrder
         \<longleftrightarrow> \<not> empty_queue (previous_results s) \<and> t <s time (front (previous_results s))"
  using assms
  by (auto simp: processLatestResults_def Let_def split: if_splits prod.splits)

lemma few_results_bail:
  assumes "started s"
    and "dims lr = [1, int (kCategoryCount s)]" and "tensor_type lr = kTfLiteInt8"
    and "empty_queue (previous_results s) \<or> \<not> t <s time (front (previous_results s))"
    and "int (queue_size (previous_results s)) + 1 < sint (minimum_count (cfg s))"
  shows "processLatestResults s lr t =
           Inr (s\<lparr>previous_results :=
                     prune (push_back (previous_results s)
                              \<lparr>time = t, scores = take (kCategoryCount s) (data_int8 lr)\<rparr>)
                           (sint (t - average_window_duration_ms (cfg s)))\<rparr>,
                (previous_top_label s, 0, False))"
proof -
  let ?q1 = "push_back (previous_results s)
               \<lparr>time = t, scores = take (kCategoryCount s) (data_int8 lr)\<rparr>"
  let ?q2 = "prune ?q1 (sint (t - average_window_duration_ms (cfg s)))"
  have "queue_size ?q2 \<le> queue_size (previous_results s) + 1"
    using prune_size_le [of ?q1] push_back_size_le [of "previous_results s"]
    by (meson order_trans)
  with assms(5) have "too_few_results (cfg s) ?q2 t"
    by (simp add: too_few_results_def Let_def)
  with assms(1-4) show ?thesis
    by (auto simp: processLatestResults_def Let_def)
qed

lemma too_few_keeps_previous:
  assumes "processLatestResults s lr t = Inr (s', d)"
    and "int (queue_size (previous_results s')) < sint (minimum_count (cfg s))
         \<or> sint t - sint (time (front (previous_results s')))
             < sint (average_window_duration_ms (cfg s)) sdiv 4"
  shows "d = (previous_top_label s, 0, False)
         \<and> previous_top_label s' = previous_top_label s
         \<and> previous_top_label_time s' = previous_top_label_time s"
  using assms
  by (auto simp: processLatestResults_def too_few_results_def Let_def
      split: if_splits prod.splits)

lemma two_results_ten_ms_apart:
  assumes c: "average_window_duration_ms c = 1000" "minimum_count c = 3" "labels c \<noteq> []"
    and r1: "dims r1 = [1, int (length (labels c))]" "tensor_type r1 = kTfLiteInt8"
    and r2: "dims r2 = [1, int (length (labels c))]" "tensor_type r2 = kTfLiteInt8"
    and t: "sint t + 10 < 2 ^ 31"
  shows "fst (feed (snd (begin_recognizer (new_RecognizeCommands silence) c))
                [(r1, t), (r2, t + 10)])
           = [Inr (silence, 0, False), Inr (silence, 0, False)]"
proof -
  define s0 where "s0 = snd (begin_recognizer (new_RecognizeCommands silence) c)"
  define n where "n = length (labels c)"
  define e1 where "e1 = \<lparr>time = t, scores = take n (data_int8 r1)\<rparr>"
  define q1 where "q1 = push_back (previous_results s0) e1"
  define q2 where "q2 = prune q1 (sint (t - 1000))"
  define s1 where "s1 = s0\<lparr>previous_results := q2\<rparr>"
  have s0: "started s0" "kCategoryCount s0 = n" "cfg s0 = c" "previous_top_label s0 = silence"
    "queue_size (previous_results s0) = 0" "front_index (previous_results s0) = 0"
    "length (results (previous_results s0)) = kMaxResults"
    using c(3)
    by (simp_all add: s0_def n_def begin_recognizer_def new_RecognizeCommands_def Let_def
        categoryCount_def queue_begin_def)
  have q1: "queue_size q1 = 1" "front q1 = e1"
    using s0
    by (simp_all add: q1_def push_back_def Let_def kMaxResults_def back_index_def front_def)
  have call1: "processLatestResults s0 r1 t = Inr (s1, (silence, 0, False))"
    using few_results_bail [of s0 r1 t] s0 r1 c
    by (simp add: empty_queue_def s1_def q2_def q1_def e1_def n_def)
  have s1: "started s1" "kCategoryCount s1 = n" "cfg s1 = c" "previous_top_label s1 = silence"
    "previous_results s1 = q2"
    using s0 by (simp_all add: s1_def)
  have q2: "q2 = q1 \<or> queue_size q2 = 0"
    using prune_same_or_smaller [of q1 "sint (t - 1000)"] q1 by (auto simp: q2_def)
  have in_order: "empty_queue q2 \<or> \<not> (t + 10) <s time (front q2)"
    using q2 q1 sint_add_10 [OF t] by (auto simp: empty_queue_def word_sless_alt e1_def)
  have small: "int (queue_size q2) + 1 < sint (minimum_count c)"
    using q2 q1 c by auto
  have call2: "processLatestResults s1 r2 (t + 10) =
      Inr (s1\<lparr>previous_results :=
                 prune (push_back (previous_results s1)
                          \<lparr>time = t + 10, scores = take (kCategoryCount s1) (data_int8 r2)\<rparr>)
                       (sint (t + 10 - average_window_duration_ms (cfg s1)))\<rparr>,
           (silence, 0, False))"
    using few_results_bail [of s1 r2 "t + 10"] s1 r2 in_order small by (simp add: n_def)
  show ?thesis
    unfolding s0_def [symmetric] by (simp add: call1 call2)
qed

text \<open>
  C3. When the window that survives the pruning holds fewer than
  \<open>minimum_count\<close> entries or spans less than \<open>average_window_duration_ms / 4\<close>,
  the call returns the previous label with score 0 and \<open>is_new_command = false\<close>,
  and \<open>previous_top_label_\<close> and \<open>previous_top_label_time_\<close> stay as they were.
  Scenario A: with a window of 1000 ms and a minimum count of 3, two results
  10 ms apart, fed to a freshly started recognizer, both give score 0 and
  \<open>is_new_command = false\<close>, whatever the scores.
\<close>

theorem too_few_results_previous_label:
  "(processLatestResults s lr t = Inr (s', d)
    \<and> (int (queue_size (previous_results s')) < sint (minimum_count (cfg s))
       \<or> sint t - sint (time (front (previous_results s')))
           < sint (average_window_duration_ms (cfg s)) sdiv 4)
    \<longrightarrow> d = (previous_top_label s, 0, False)
        \<and> previous_top_label s' = previous_top_label s
        \<and> previous_top_label_time s' = previous_top_label_time s)
   \<and> (average_window_duration_ms c = 1000 \<and> minimum_count c = 3 \<and> labels c \<noteq> []
      \<and> dims r1 = [1, int (length (labels c))] \<and> tensor_type r1 = kTfLiteInt8
      \<and> dims r2 = [1, int (length (labels c))] \<and> tensor_type r2 = kTfLiteInt8
      \<and> sint t0 + 10 < 2 ^ 31
    \<longrightarrow> fst (feed (snd (begin_recognizer (new_RecognizeCommands silence) c))
                  [(r1, t0), (r2, t0 + 10)])
          = [Inr (silence, 0, False), Inr (silence, 0, False)])"
  using too_few_keeps_previous [of s lr t s' d]
    two_results_ten_ms_apart [of c r1 r2 t0 silence]
  by blast

theorem too_few_results_previous_label_witness:
  "processLatestResults demo_start yes_scores 0
     = Inr (snd (feed demo_start [(yes_scores, 0)]), (99, 0, False))
   \<and> int (queue_size (previous_results (snd (feed demo_start [(yes_scores, 0)]))))
       < sint (minimum_count (cfg demo_start))
   \<and> previous_top_label (snd (feed demo_start [(yes_scores, 0)])) = previous_top_label demo_start
   \<and> previous_top_label_time (snd (feed demo_start [(yes_scores, 0)]))
       = previous_top_label_time demo_start
   \<and> fst (feed (snd (begin_recognizer (new_RecognizeCommands 99) demo_config))
             [(yes_scores, 0), (silence_scores, 0 + 10)])
       = [Inr (99, 0, False), Inr (99, 0, False)]"
proof -
  let ?s' = "snd (feed demo_start [(yes_scores, 0)])"
  have call: "processLatestResults demo_start yes_scores 0 = Inr (?s', (99, 0, False))"
    by code_simp
  have few: "int (queue_size (previous_results ?s')) < sint (minimum_count (cfg demo_start))"
    by code_simp
  have cfg: "average_window_duration_ms demo_config = 1000 \<and> minimum_count demo_config = 3
      \<and> labels demo_config \<noteq> []
      \<and> dims yes_scores = [1, int (length (labels demo_config))]
      \<and> tensor_type yes_scores = kTfLiteInt8
      \<and> dims silence_scores = [1, int (length (labels demo_config))]
      \<and> tensor_type silence_scores = kTfLiteInt8
      \<and> sint (0 :: int32_t) + 10 < 2 ^ 31"
    by (simp add: demo_config_def default_config_def yes_scores_def silence_scores_def
        demo_tensor_def)
  from too_few_results_previous_label
    [of demo_start yes_scores 0 ?s' "(99, 0, False)" demo_config yes_scores silence_scores 0 99]
    call few cfg
  show ?thesis by blast
qed

text \<open>
  The averaging loops compute, for each category, the mean of \<open>score + 128\<close> over
  the window, rounded down; the search returns the first category with the
  highest mean.
\<close>

lemma add_scores_nth:
  "i < n \<Longrightarrow> add_scores n offset avg sc ! i
     = (if offset = 0 then sint (sc ! i) + 128 else avg ! i + (sint (sc ! i) + 128))"
  by (simp add: add_scores_def)

lemma sum_loop_nth:
  assumes "i < n" and "0 < k"
  shows "foldl (\<lambda>avg offset. add_scores n offset avg (scores (from_front q offset)))
           (replicate n 0) [0..<k] ! i
         = (\<Sum>offset < k. sint (scores (from_front q offset) ! i) + 128)"
  using assms(2)
proof (induction k)
  case 0
  then show ?case by simp
next
  case (Suc k)
  show ?case
  proof (cases "k = 0")
    case True
    then show ?thesis
      using assms(1) by (simp add: add_scores_nth)
  next
    case False
    with Suc assms(1) show ?thesis
      by (simp add: add_scores_nth)
  qed
qed

lemma sum_scores_nth:
  assumes "i < n" and "0 < queue_size q"
  shows "sum_scores q n ! i
         = (\<Sum>offset < queue_size q. sint (scores (from_front q offset) ! i) + 128)"
  unfolding sum_scores_def using assms by (rule sum_loop_nth)

lemma sum_scores_length: "length (sum_scores q n) = n"
proof -
  have "length (foldl (\<lambda>avg offset. add_scores n offset avg (scores (from_front q offset)))
           (replicate n 0) [0..<k]) = n" for k
    by (induction k) (simp_all add: add_scores_def)
  then show ?thesis by (simp add: sum_scores_def)
qed

lemma average_scores_nth:
  assumes "i < n" and "0 < queue_size q"
  shows "average_scores q n ! i
         = (\<Sum>offset < queue_size q. sint (scores (from_front q offset) ! i) + 128)
             div int (queue_size q)"
  using assms by (simp add: average_scores_def sum_scores_length sum_scores_nth)

lemma average_scores_range:
  assumes "i < n" and "0 < queue_size q"
  shows "0 \<le> average_scores q n ! i \<and> average_scores q n ! i \<le> 255"
proof -
  let ?f = "\<lambda>offset. sint (scores (from_front q offset) ! i) + 128"
  have each: "0 \<le> ?f offset \<and> ?f offset \<le> 255" for offset
    using sint_ge [of "scores (from_front q offset) ! i"]
      sint_lt [of "scores (from_front q offset) ! i"] by simp
  have lo: "0 \<le> (\<Sum>offset < queue_size q. ?f offset)"
    using each by (intro sum_nonneg) simp
  have "(\<Sum>offset < queue_size q. ?f offset) \<le> (\<Sum>offset < queue_size q. 255)"
    using each by (intro sum_mono) simp
  then have hi: "(\<Sum>offset < queue_size q. ?f offset) \<le> 255 * int (queue_size q)"
    by simp
  have "(\<Sum>offset < queue_size q. ?f offset) div int (queue_size q)
          \<le> (255 * int (queue_size q)) div int (queue_size q)"
    using hi assms(2) by (intro zdiv_mono1) simp_all
  then have "(\<Sum>offset < queue_size q. ?f offset) div int (queue_size q) \<le> 255"
    using assms(2) by simp
  moreover have "0 \<le> (\<Sum>offset < queue_size q. ?f offset) div int (queue_size q)"
    using lo assms(2) by (simp add: pos_imp_zdiv_nonneg_iff)
  ultimately show ?thesis
    using assms by (simp add: average_scores_nth)
qed

lemma top_loop:
  fixes avg :: "int list"
  assumes "foldl (\<lambda>(current_top_index, current_top_score) i.
              if avg ! i > current_top_score then (i, avg ! i)
              else (current_top_index, current_top_score)) (0, 0) [0..<k] = (idx, v)"
  shows "(\<forall>j < k. avg ! j \<le> v) \<and> 0 \<le> v
         \<and> ((v = 0 \<and> idx = 0) \<or> (idx < k \<and> avg ! idx = v \<and> (\<forall>j < idx. avg ! j < v)))"
  using assms
proof (induction k arbitrary: idx v)
  case 0
  then show ?case by simp
next
  case (Suc k)
  obtain idx0 v0 where prev:
    "foldl (\<lambda>(current_top_index, current_top_score) i.
              if avg ! i > current_top_score then (i, avg ! i)
              else (current_top_index, current_top_score)) (0, 0) [0..<k] = (idx0, v0)"
    by (cases "foldl (\<lambda>(current_top_index, current_top_score) i.
              if avg ! i > current_top_score then (i, avg ! i)
              else (current_top_index, current_top_score)) (0, 0) [0..<k]") 
  note ih = Suc.IH [OF prev]
  from Suc.prems prev have now: "(idx, v) = (if avg ! k > v0 then (k, avg ! k) else (idx0, v0))"
    by simp
  show ?case
  proof (cases "avg ! k > v0")
    case True
    with now have "idx = k" "v = avg ! k" by simp_all
    with ih True show ?thesis
      by (auto simp: less_Suc_eq intro: order_trans less_imp_le le_less_trans)
  next
    case False
    with now have "idx = idx0" "v = v0" by simp_all
    with ih False show ?thesis
      by (auto simp: less_Suc_eq)
  qed
qed

lemma current_top_is_max:
  fixes avg :: "int list"
  assumes "current_top avg n = (i, v)"
  shows "(\<forall>j < n. avg ! j \<le> v) \<and> 0 \<le> v
         \<and> ((v = 0 \<and> i = 0) \<or> (i < n \<and> avg ! i = v \<and> (\<forall>j < i. avg ! j < v)))"
  using assms unfolding current_top_def by (rule top_loop)

text \<open>The top average fits the \<open>uint8_t\<close> that reports it.\<close>

lemma current_top_score_range:
  assumes "current_top (average_scores q n) n = (i, v)" and "0 < queue_size q"
  shows "0 \<le> v \<and> v \<le> 255"
  using current_top_is_max [OF assms(1)] average_scores_range [OF _ assms(2), of i n]
  by auto

text \<open>
  C2. The claim: a call whose \<open>current_time_ms\<close> is below the time of the most
  recent entry of the history fails and changes nothing. The source compares with
  \<open>front()\<close>, the oldest entry. After results at 0 ms and 100 ms the history
  holds two entries, the most recent one at 100 ms; a call at 50 ms is then not
  rejected: it returns a decision, and the history holds a third entry, at 50 ms,
  behind the one at 100 ms.
\<close>

theorem out_of_order_call_accepted:
  "queue_size (previous_results (snd (feed demo_start [(yes_scores, 0), (yes_scores, 100)]))) = 2
   \<and> map (\<lambda>k. time (from_front
                (previous_results (snd (feed demo_start [(yes_scores, 0), (yes_scores, 100)]))) k))
         [0, 1] = [0, 100]
   \<and> (50 :: int32_t) <s 100
   \<and> processLatestResults (snd (feed demo_start [(yes_scores, 0), (yes_scores, 100)])) yes_scores 50
       = Inr (snd (feed demo_start [(yes_scores, 0), (yes_scores, 100), (yes_scores, 50)]),
              (99, 0, False))
   \<and> queue_size (previous_results
         (snd (feed demo_start [(yes_scores, 0), (yes_scores, 100), (yes_scores, 50)]))) = 3
   \<and> map (\<lambda>k. time (from_front
                (previous_results
                   (snd (feed demo_start [(yes_scores, 0), (yes_scores, 100), (yes_scores, 50)]))) k))
         [0, 1, 2] = [0, 100, 50]"
  by code_simp

text \<open>So the call at 50 ms is not rejected, and it changes the history.\<close>

theorem out_of_order_call_accepted_witness:
  "processLatestResults (snd (feed demo_start [(yes_scores, 0), (yes_scores, 100)])) yes_scores 50
     \<noteq> Inl OutOfOrder
   \<and> previous_results
         (snd (feed demo_start [(yes_scores, 0), (yes_scores, 100), (yes_scores, 50)]))
       \<noteq> previous_results (snd (feed demo_start [(yes_scores, 0), (yes_scores, 100)]))"
proof -
  let ?before = "snd (feed demo_start [(yes_scores, 0), (yes_scores, 100)])"
  let ?after = "snd (feed demo_start [(yes_scores, 0), (yes_scores, 100), (yes_scores, 50)])"
  from out_of_order_call_accepted
  have call: "processLatestResults ?before yes_scores 50 = Inr (?after, (99, 0, False))"
    and sizes: "queue_size (previous_results ?before) = 2"
      "queue_size (previous_results ?after) = 3"
    by blast+
  from sizes have "previous_results ?after \<noteq> previous_results ?before"
    by auto
  with call show ?thesis
    by simp
qed

text \<open>
  The instance \<open>by_value\<close> is the function with the scores stored by value, and
  what the freed arrays hold plays no part in a call that leaves before the
  averaging because the window has too few results.
\<close>

lemma average_by_value: "average_scores_freed by_value q n = average_scores q n"
  by (simp add: average_scores_freed_def average_scores_def sum_scores_freed_def
      sum_scores_def by_value_def)

lemma processLatestResults_by_value:
  "processLatestResults_freed by_value s lr t = processLatestResults s lr t"
  unfolding processLatestResults_freed_def processLatestResults_def average_by_value
  by (rule refl)

lemma feed_by_value: "feed_freed s (map (\<lambda>(r, t). (by_value, r, t)) calls) = feed s calls"
  by (induction calls arbitrary: s)
    (auto simp: processLatestResults_by_value split: sum.splits prod.splits)

lemma too_few_reads_no_scores:
  assumes "too_few_results (cfg s)
             (prune (push_back (previous_results s)
                       \<lparr>time = t, scores = take (kCategoryCount s) (data_int8 lr)\<rparr>)
                    (sint (t - average_window_duration_ms (cfg s)))) t"
  shows "processLatestResults_freed freed s lr t = processLatestResults s lr t"
  using assms
  by (simp add: processLatestResults_freed_def processLatestResults_def Let_def)

lemma processLatestResults_freed_state:
  assumes "processLatestResults_freed freed s lr t = Inr (s', d)"
  shows "cfg s' = cfg s \<and> kCategoryCount s' = kCategoryCount s \<and> started s' = started s"
  using assms
  by (auto simp: processLatestResults_freed_def Let_def split: if_splits prod.splits)

lemma not_new_keeps_previous:
  assumes "processLatestResults_freed freed s lr t = Inr (s', (l, sc, False))"
  shows "previous_top_label s' = previous_top_label s
         \<and> previous_top_label_time s' = previous_top_label_time s"
  using assms
  by (auto simp: processLatestResults_freed_def Let_def split: if_splits prod.splits)

lemma decision_rule:
  assumes "processLatestResults_freed freed s lr t = Inr (s', (lab, sc, new))"
    and "\<not> (int (queue_size (previous_results s')) < sint (minimum_count (cfg s))
            \<or> sint t - sint (time (front (previous_results s')))
                < sint (average_window_duration_ms (cfg s)) sdiv 4)"
    and "current_top (average_scores_freed freed (previous_results s') (kCategoryCount s))
           (kCategoryCount s) = (i, top_score)"
  shows "(new \<longleftrightarrow> top_score > int (unat (detection_threshold (cfg s)))
                 \<and> (labels (cfg s) ! i \<noteq> previous_top_label s
                      \<or> time_since_last_top s t > sint (suppression_ms (cfg s))))
         \<and> lab = labels (cfg s) ! i \<and> sc = word_of_int top_score
         \<and> previous_top_label s' = (if new then labels (cfg s) ! i else previous_top_label s)
         \<and> previous_top_label_time s' = (if new then t else previous_top_label_time s)"
  using assms
  by (auto simp: processLatestResults_freed_def too_few_results_def Let_def
      split: if_splits prod.splits)

lemma repeat_suppressed:
  assumes ok: "processLatestResults_freed freed s lr t = Inr (s', (lab, sc, new))"
    and prev: "previous_top_label s = lab" "lab \<noteq> labels (cfg s) ! 0"
      "previous_top_label_time s \<noteq> INT32_MIN"
    and near: "0 \<le> sint t - sint (previous_top_label_time s)"
      "sint t - sint (previous_top_label_time s) \<le> sint (suppression_ms (cfg s))"
  shows "\<not> new"
proof -
  have "sint (suppression_ms (cfg s)) < 2 ^ 31"
    using sint_lt [of "suppression_ms (cfg s)"] by simp
  with near have "sint (t - previous_top_label_time s) = sint t - sint (previous_top_label_time s)"
    by (intro sint_sub_no_wrap) auto
  with prev near have "\<not> time_since_last_top s t > sint (suppression_ms (cfg s))"
    by (simp add: time_since_last_top_def)
  with ok prev show ?thesis
    by (auto simp: processLatestResults_freed_def Let_def split: if_splits prod.splits)
qed

text \<open>
  A run of calls after a recognition of \<open>lab\<close> at \<open>t0\<close>, all of them at most
  \<open>suppression_ms\<close> later: unless another label is reported as new, nothing is.
\<close>

lemma suppressed_run:
  assumes "previous_top_label s = lab" and "previous_top_label_time s = t0"
    and "lab \<noteq> labels (cfg s) ! 0" and "t0 \<noteq> INT32_MIN"
    and "\<forall>c \<in> set calls. 0 \<le> sint (snd (snd c)) - sint t0
            \<and> sint (snd (snd c)) - sint t0 \<le> sint (suppression_ms (cfg s))"
    and "\<forall>l sc. Inr (l, sc, True) \<in> set (fst (feed_freed s calls)) \<longrightarrow> l = lab"
  shows "\<forall>l sc. Inr (l, sc, True) \<notin> set (fst (feed_freed s calls))"
  using assms
proof (induction calls arbitrary: s)
  case Nil
  then show ?case by simp
next
  case (Cons c calls)
  obtain freed r tk where c: "c = (freed, r, tk)"
    by (cases c) auto
  from Cons.prems(5) c have near: "0 \<le> sint tk - sint t0"
    "sint tk - sint t0 \<le> sint (suppression_ms (cfg s))"
    and rest: "\<forall>c \<in> set calls. 0 \<le> sint (snd (snd c)) - sint t0
            \<and> sint (snd (snd c)) - sint t0 \<le> sint (suppression_ms (cfg s))"
    by simp_all
  show ?case
  proof (cases "processLatestResults_freed freed s r tk")
    case (Inl e)
    then have eq: "fst (feed_freed s (c # calls)) = Inl e # fst (feed_freed s calls)"
      by (simp add: c split: prod.splits)
    with Cons.prems(6)
    have "\<forall>l sc. Inr (l, sc, True) \<in> set (fst (feed_freed s calls)) \<longrightarrow> l = lab"
      by simp
    from Cons.IH [OF Cons.prems(1-4) rest this] eq show ?thesis
      by simp
  next
    case (Inr p)
    obtain s1 l sc nw where p: "p = (s1, (l, sc, nw))"
      by (cases p) auto
    from Inr p have call: "processLatestResults_freed freed s r tk = Inr (s1, (l, sc, nw))"
      by simp
    then have eq: "fst (feed_freed s (c # calls)) = Inr (l, sc, nw) # fst (feed_freed s1 calls)"
      by (simp add: c split: prod.splits)
    have "\<not> nw"
    proof
      assume nw
      with Cons.prems(6) eq have "l = lab"
        by simp
      with call Cons.prems(1-4) near \<open>nw\<close> show False
        using repeat_suppressed [of freed s r tk s1 lab sc nw] by simp
    qed
    with call have keep: "previous_top_label s1 = lab" "previous_top_label_time s1 = t0"
      and cfg: "cfg s1 = cfg s"
      using not_new_keeps_previous [of freed s r tk s1 l sc]
        processLatestResults_freed_state [of freed s r tk s1] Cons.prems(1,2)
      by simp_all
    from Cons.prems(6) eq
    have "\<forall>l sc. Inr (l, sc, True) \<in> set (fst (feed_freed s1 calls)) \<longrightarrow> l = lab"
      by simp
    from Cons.IH [of s1] keep cfg Cons.prems(3,4) rest this
    have "\<forall>l sc. Inr (l, sc, True) \<notin> set (fst (feed_freed s1 calls))"
      by simp
    with eq \<open>\<not> nw\<close> show ?thesis
      by simp
  qed
qed

text \<open>
  C1, as the source has it, whatever the averaging loop finds in the freed score
  arrays of \<open>TfLiteAudioStream.h\<close> (and so for the template version, where it
  finds the stored scores). For a call whose surviving window passes the
  minimum-count and span checks, \<open>is_new_command\<close> is true, and
  \<open>previous_top_label_\<close> and \<open>previous_top_label_time_\<close> are set to the top label
  and the current time, if and only if the top average is above
  \<open>detection_threshold\<close> and the top label differs from the previous label or
  \<open>time_since_last_top\<close> is above \<open>suppression_ms\<close>; \<open>time_since_last_top\<close> is
  \<open>INT32_MAX\<close> when the previous label is \<open>labels[0]\<close> or no time was recorded,
  and the time since the previous recognition otherwise. So when a label other
  than \<open>labels[0]\<close> has been reported as new (at a time other than \<open>INT32_MIN\<close>),
  then in every run of later calls, each at most \<open>suppression_ms\<close> after that, in
  which no other label is reported as new, no call reports a new command.
\<close>

theorem new_command_rule:
  assumes "processLatestResults_freed freed s lr t = Inr (s', (lab, sc, new))"
    and "\<not> (int (queue_size (previous_results s')) < sint (minimum_count (cfg s))
            \<or> sint t - sint (time (front (previous_results s')))
                < sint (average_window_duration_ms (cfg s)) sdiv 4)"
    and "current_top (average_scores_freed freed (previous_results s') (kCategoryCount s))
           (kCategoryCount s) = (i, top_score)"
  shows "(new \<longleftrightarrow> top_score > int (unat (detection_threshold (cfg s)))
                 \<and> (labels (cfg s) ! i \<noteq> previous_top_label s
                      \<or> time_since_last_top s t > sint (suppression_ms (cfg s))))
         \<and> lab = labels (cfg s) ! i
         \<and> previous_top_label s' = (if new then labels (cfg s) ! i else previous_top_label s)
         \<and> previous_top_label_time s' = (if new then t else previous_top_label_time s)
         \<and> time_since_last_top s t =
             (if previous_top_label s = labels (cfg s) ! 0 \<or> previous_top_label_time s = INT32_MIN
              then 2 ^ 31 - 1 else sint (t - previous_top_label_time s))
         \<and> (\<forall>calls.
               new \<and> lab \<noteq> labels (cfg s) ! 0 \<and> t \<noteq> INT32_MIN
               \<and> (\<forall>c \<in> set calls. 0 \<le> sint (snd (snd c)) - sint t
                      \<and> sint (snd (snd c)) - sint t \<le> sint (suppression_ms (cfg s)))
               \<and> (\<forall>l sc2. Inr (l, sc2, True) \<in> set (fst (feed_freed s' calls)) \<longrightarrow> l = lab)
               \<longrightarrow> (\<forall>l sc2. Inr (l, sc2, True) \<notin> set (fst (feed_freed s' calls))))"
proof -
  note rule = decision_rule [OF assms]
  have cfg: "cfg s' = cfg s"
    using processLatestResults_freed_state [OF assms(1)] by (rule conjunct1)
  have later: "\<forall>l sc2. Inr (l, sc2, True) \<notin> set (fst (feed_freed s' calls))"
    if new: "new" and lab: "lab \<noteq> labels (cfg s) ! 0" and t: "t \<noteq> INT32_MIN"
      and near: "\<forall>c \<in> set calls. 0 \<le> sint (snd (snd c)) - sint t
          \<and> sint (snd (snd c)) - sint t \<le> sint (suppression_ms (cfg s))"
      and others: "\<forall>l sc2. Inr (l, sc2, True) \<in> set (fst (feed_freed s' calls)) \<longrightarrow> l = lab"
    for calls
  proof -
    from rule new have pl: "previous_top_label s' = lab"
      and pt: "previous_top_label_time s' = t"
      by simp_all
    from lab have lab': "lab \<noteq> labels (cfg s') ! 0"
      by (simp add: cfg)
    from near have near': "\<forall>c \<in> set calls. 0 \<le> sint (snd (snd c)) - sint t
          \<and> sint (snd (snd c)) - sint t \<le> sint (suppression_ms (cfg s'))"
      by (simp add: cfg)
    show ?thesis
      by (rule suppressed_run [OF pl pt lab' t near' others])
  qed
  have last: "\<forall>calls.
               new \<and> lab \<noteq> labels (cfg s) ! 0 \<and> t \<noteq> INT32_MIN
               \<and> (\<forall>c \<in> set calls. 0 \<le> sint (snd (snd c)) - sint t
                      \<and> sint (snd (snd c)) - sint t \<le> sint (suppression_ms (cfg s)))
               \<and> (\<forall>l sc2. Inr (l, sc2, True) \<in> set (fst (feed_freed s' calls)) \<longrightarrow> l = lab)
               \<longrightarrow> (\<forall>l sc2. Inr (l, sc2, True) \<notin> set (fst (feed_freed s' calls)))"
  proof (intro allI impI, elim conjE)
    fix calls l sc2
    assume "new" "lab \<noteq> labels (cfg s) ! 0" "t \<noteq> INT32_MIN"
      "\<forall>c \<in> set calls. 0 \<le> sint (snd (snd c)) - sint t
          \<and> sint (snd (snd c)) - sint t \<le> sint (suppression_ms (cfg s))"
      "\<forall>l sc2. Inr (l, sc2, True) \<in> set (fst (feed_freed s' calls)) \<longrightarrow> l = lab"
    from later [OF this] show "Inr (l, sc2, True) \<notin> set (fst (feed_freed s' calls))"
      by (elim allE)
  qed
  have tslt: "time_since_last_top s t =
             (if previous_top_label s = labels (cfg s) ! 0 \<or> previous_top_label_time s = INT32_MIN
              then 2 ^ 31 - 1 else sint (t - previous_top_label_time s))"
    by (simp add: time_since_last_top_def INT32_MAX_def)
  from rule have r1: "new \<longleftrightarrow> top_score > int (unat (detection_threshold (cfg s)))
                 \<and> (labels (cfg s) ! i \<noteq> previous_top_label s
                      \<or> time_since_last_top s t > sint (suppression_ms (cfg s)))"
    by (rule conjunct1)
  from rule have r2: "lab = labels (cfg s) ! i"
    by (elim conjE)
  from rule
  have r3: "previous_top_label s' = (if new then labels (cfg s) ! i else previous_top_label s)"
    by (elim conjE)
  from rule
  have r4: "previous_top_label_time s' = (if new then t else previous_top_label_time s)"
    by (elim conjE)
  show ?thesis
    by (intro conjI r1 r2 r3 r4 tslt last)
qed

theorem new_command_rule_witness:
  "processLatestResults_freed (last_written [- 128, - 128, 127, - 128])
       (snd (feed demo_start [(yes_scores, 0), (yes_scores, 300)])) yes_scores 600
     = Inr (snd (feed demo_start [(yes_scores, 0), (yes_scores, 300), (yes_scores, 600)]),
            (116, 255, True))
   \<and> processLatestResults (snd (feed demo_start [(yes_scores, 0), (yes_scores, 300)])) yes_scores 600
     = Inr (snd (feed demo_start [(yes_scores, 0), (yes_scores, 300), (yes_scores, 600)]),
            (116, 255, True))
   \<and> int (queue_size (previous_results
         (snd (feed demo_start [(yes_scores, 0), (yes_scores, 300), (yes_scores, 600)])))) = 3
   \<and> sint (600 :: int32_t) - sint (time (front (previous_results
         (snd (feed demo_start [(yes_scores, 0), (yes_scores, 300), (yes_scores, 600)]))))) = 600
   \<and> current_top (average_scores_freed (last_written [- 128, - 128, 127, - 128])
         (previous_results
            (snd (feed demo_start [(yes_scores, 0), (yes_scores, 300), (yes_scores, 600)]))) 4) 4
       = (2, 255)
   \<and> previous_top_label
       (snd (feed demo_start [(yes_scores, 0), (yes_scores, 300), (yes_scores, 600)])) = 116
   \<and> previous_top_label_time
       (snd (feed demo_start [(yes_scores, 0), (yes_scores, 300), (yes_scores, 600)])) = 600
   \<and> fst (feed_freed
            (snd (feed demo_start [(yes_scores, 0), (yes_scores, 300), (yes_scores, 600)]))
            [(last_written [- 128, - 128, 127, - 128], yes_scores, 900),
             (by_value, yes_scores, 1200)])
       = [Inr (116, 255, False), Inr (116, 255, False)]
   \<and> (\<forall>l sc2. Inr (l, sc2, True) \<notin> set (fst (feed_freed
            (snd (feed demo_start [(yes_scores, 0), (yes_scores, 300), (yes_scores, 600)]))
            [(last_written [- 128, - 128, 127, - 128], yes_scores, 900),
             (by_value, yes_scores, 1200)])))"
proof -
  let ?found = "last_written [- 128, - 128, 127, - 128]"
  let ?s = "snd (feed demo_start [(yes_scores, 0), (yes_scores, 300)])"
  let ?s' = "snd (feed demo_start [(yes_scores, 0), (yes_scores, 300), (yes_scores, 600)])"
  let ?calls = "[(?found, yes_scores, 900 :: int32_t), (by_value, yes_scores, 1200)]"
  have call: "processLatestResults_freed ?found ?s yes_scores 600 = Inr (?s', (116, 255, True))"
    by code_simp
  have call_by_value: "processLatestResults ?s yes_scores 600 = Inr (?s', (116, 255, True))"
    by code_simp
  have size: "int (queue_size (previous_results ?s')) = 3"
    and span: "sint (600 :: int32_t) - sint (time (front (previous_results ?s'))) = 600"
    and config: "sint (minimum_count (cfg ?s)) = 3"
      "sint (average_window_duration_ms (cfg ?s)) sdiv 4 = 250" "kCategoryCount ?s = 4"
      "sint (suppression_ms (cfg ?s)) = 1500"
    by code_simp+
  have top4: "current_top (average_scores_freed ?found (previous_results ?s') 4) 4 = (2, 255)"
    by code_simp
  from size span config
  have enough: "\<not> (int (queue_size (previous_results ?s')) < sint (minimum_count (cfg ?s))
            \<or> sint (600 :: int32_t) - sint (time (front (previous_results ?s')))
                < sint (average_window_duration_ms (cfg ?s)) sdiv 4)"
    by simp
  from top4 config
  have top: "current_top (average_scores_freed ?found (previous_results ?s') (kCategoryCount ?s))
               (kCategoryCount ?s) = (2, 255)"
    by simp
  have label: "labels (cfg ?s) ! 2 = 116" "labels (cfg ?s) ! 0 = 100"
    by code_simp+
  have run: "fst (feed_freed ?s' ?calls) = [Inr (116, 255, False), Inr (116, 255, False)]"
    by code_simp
  note rule = new_command_rule [OF call enough top]
  from rule
  have "previous_top_label ?s' = (if True then labels (cfg ?s) ! 2 else previous_top_label ?s)"
    and "previous_top_label_time ?s' = (if True then 600 else previous_top_label_time ?s)"
    by blast+
  with label have state1: "previous_top_label ?s' = 116"
    and state2: "previous_top_label_time ?s' = 600"
    by simp_all
  have side: "(116 :: cstr) \<noteq> labels (cfg ?s) ! 0" "(600 :: int32_t) \<noteq> INT32_MIN"
    using label by (simp_all add: INT32_MIN_def)
  have times: "\<forall>c \<in> set ?calls. 0 \<le> sint (snd (snd c)) - sint (600 :: int32_t)
      \<and> sint (snd (snd c)) - sint (600 :: int32_t) \<le> sint (suppression_ms (cfg ?s))"
    using config by simp
  have others: "\<forall>l sc2. Inr (l, sc2, True) \<in> set (fst (feed_freed ?s' ?calls)) \<longrightarrow> l = 116"
    unfolding run by simp
  from rule have "\<forall>calls.
       True \<and> (116 :: cstr) \<noteq> labels (cfg ?s) ! 0 \<and> (600 :: int32_t) \<noteq> INT32_MIN
       \<and> (\<forall>c \<in> set calls. 0 \<le> sint (snd (snd c)) - sint (600 :: int32_t)
              \<and> sint (snd (snd c)) - sint (600 :: int32_t) \<le> sint (suppression_ms (cfg ?s)))
       \<and> (\<forall>l sc2. Inr (l, sc2, True) \<in> set (fst (feed_freed ?s' calls)) \<longrightarrow> l = 116)
       \<longrightarrow> (\<forall>l sc2. Inr (l, sc2, True) \<notin> set (fst (feed_freed ?s' calls)))"
    by blast
  then have "True \<and> (116 :: cstr) \<noteq> labels (cfg ?s) ! 0 \<and> (600 :: int32_t) \<noteq> INT32_MIN
       \<and> (\<forall>c \<in> set ?calls. 0 \<le> sint (snd (snd c)) - sint (600 :: int32_t)
              \<and> sint (snd (snd c)) - sint (600 :: int32_t) \<le> sint (suppression_ms (cfg ?s)))
       \<and> (\<forall>l sc2. Inr (l, sc2, True) \<in> set (fst (feed_freed ?s' ?calls)) \<longrightarrow> l = 116)
       \<longrightarrow> (\<forall>l sc2. Inr (l, sc2, True) \<notin> set (fst (feed_freed ?s' ?calls)))"
    by (rule spec)
  with side times others
  have quiet: "\<forall>l sc2. Inr (l, sc2, True) \<notin> set (fst (feed_freed ?s' ?calls))"
    by blast
  show ?thesis
    by (intro conjI call call_by_value size span top4 state1 state2 run quiet)
qed

text \<open>
  The claim as stated fails for the label \<open>labels[0]\<close>: when it stays on top
  with an average of 255, above the threshold of 200, the calls at 600 ms and at
  900 ms, well within the suppression time of 1500 ms, both report a new command;
  so they do when the literal of the constructor and \<open>labels[0]\<close> are one string
  at one address, and when the scores are found in freed arrays that hold what
  was written last. It also fails for another label after a third one came in
  between: the label at 116 is new at 250 ms, the label at 120 at 1510 ms, and the
  label at 116 again at 1630 ms, 1380 ms after its first report, with the scores
  stored by value and with freed arrays that hold what was written last.
\<close>

theorem first_label_not_suppressed:
  "fst (feed demo_start
          [(silence_scores, 0), (silence_scores, 300), (silence_scores, 600), (silence_scores, 900)])
     = [Inr (99, 0, False), Inr (99, 0, False), Inr (100, 255, True), Inr (100, 255, True)]
   \<and> fst (feed (snd (begin_recognizer (new_RecognizeCommands 100) demo_config))
          [(silence_scores, 0), (silence_scores, 300), (silence_scores, 600), (silence_scores, 900)])
     = [Inr (100, 0, False), Inr (100, 0, False), Inr (100, 255, True), Inr (100, 255, True)]
   \<and> fst (feed_freed demo_start
          [(last_written [127, - 128, - 128, - 128], silence_scores, 0),
           (last_written [127, - 128, - 128, - 128], silence_scores, 300),
           (last_written [127, - 128, - 128, - 128], silence_scores, 600),
           (last_written [127, - 128, - 128, - 128], silence_scores, 900)])
     = [Inr (99, 0, False), Inr (99, 0, False), Inr (100, 255, True), Inr (100, 255, True)]
   \<and> fst (feed demo_start
          [(yes_scores, 0), (yes_scores, 125), (yes_scores, 250), (no_then_yes_scores, 1260),
           (no_then_yes_scores, 1385), (no_then_yes_scores, 1510), (yes_scores, 1630)])
     = [Inr (99, 0, False), Inr (99, 0, False), Inr (116, 255, True), Inr (116, 0, False),
        Inr (116, 0, False), Inr (120, 255, True), Inr (116, 234, True)]
   \<and> fst (feed_freed demo_start
          [(last_written [- 128, - 128, 127, - 128], yes_scores, 0),
           (last_written [- 128, - 128, 127, - 128], yes_scores, 125),
           (last_written [- 128, - 128, 127, - 128], yes_scores, 250),
           (last_written [- 128, - 128, 100, 127], no_then_yes_scores, 1260),
           (last_written [- 128, - 128, 100, 127], no_then_yes_scores, 1385),
           (last_written [- 128, - 128, 100, 127], no_then_yes_scores, 1510),
           (last_written [- 128, - 128, 127, - 128], yes_scores, 1630)])
     = [Inr (99, 0, False), Inr (99, 0, False), Inr (116, 255, True), Inr (116, 0, False),
        Inr (116, 0, False), Inr (120, 255, True), Inr (116, 255, True)]
   \<and> sint (900 - 600 :: int32_t) \<le> sint (suppression_ms demo_config)
   \<and> sint (1630 - 250 :: int32_t) \<le> sint (suppression_ms demo_config)
   \<and> unat (detection_threshold demo_config) < 234"
  by code_simp

section \<open>Feature generation and the feature window\<close>

lemma value_div_eq: "value_div = 666"
proof -
  have "(25.6 * 26.0 + 0.5 :: real) = 666 + 1 / 10"
    by simp
  then have "\<lfloor>(25.6 * 26.0 + 0.5 :: real)\<rfloor> = 666"
    by linarith
  then show ?thesis
    by (simp add: value_div_def)
qed

lemma value_div_round: "value_div = round (25.6 * 26.0 :: real)"
  by (simp add: value_div_def round_def)

lemma sint_int8_of_int:
  assumes "- 128 \<le> v" and "v \<le> 127"
  shows "sint (word_of_int v :: int8_t) = v"
  using assms by (simp add: sint_sbintrunc' signed_take_bit_int_eq_self)

lemma quantize_feature_value:
  "sint (quantize_feature raw)
     = max (- 128) (min 127 ((raw * 256 + value_div sdiv 2) sdiv value_div - 128))"
proof -
  define v where "v = (raw * 256 + value_div sdiv 2) sdiv value_div - 128"
  define c where "c = max (- 128) (min 127 v)"
  have "quantize_feature raw = word_of_int c"
    by (simp add: quantize_feature_def Let_def value_scale_def v_def c_def max_def min_def)
  moreover have "- 128 \<le> c" "c \<le> 127"
    by (simp_all add: c_def)
  ultimately show ?thesis
    using sint_int8_of_int [of c] by (simp add: c_def v_def)
qed

text \<open>On a value that is not negative the division is the ordinary one and only the upper bound clips.\<close>

lemma quantize_feature_nonneg:
  assumes "0 \<le> raw"
  shows "sint (quantize_feature raw) = min 127 ((raw * 256 + 333) div 666 - 128)"
proof -
  have "(raw * 256 + 333) sdiv 666 = (raw * 256 + 333) div 666"
    using assms by (simp add: signed_divide_int_def sgn_if)
  moreover have "(666 :: int) sdiv 2 = 333"
    by (simp add: signed_divide_int_def)
  moreover have "0 \<le> (raw * 256 + 333) div 666"
    using assms by (simp add: pos_imp_zdiv_nonneg_iff)
  ultimately show ?thesis
    by (simp add: quantize_feature_value value_div_eq max_def min_def)
qed

text \<open>
  C8. Each raw value of the frontend becomes the \<open>int8_t\<close> entry
  \<open>((raw * 256) + (value_div / 2)) / value_div - 128\<close>, in integer arithmetic,
  clipped to [-128, 127], with \<open>value_div = round (25.6 * 26.0) = 666\<close>. For a
  16-bit raw value the intermediate results fit the 32-bit arithmetic of the
  source.
\<close>

theorem feature_quantization:
  "value_div = 666 \<and> value_div = round (25.6 * 26.0 :: real)
   \<and> (- 32768 \<le> raw \<and> raw \<le> 65535 \<longrightarrow>
        sint (quantize_feature raw)
          = max (- 128) (min 127 ((raw * 256 + value_div sdiv 2) sdiv value_div - 128))
        \<and> - 128 \<le> sint (quantize_feature raw) \<and> sint (quantize_feature raw) \<le> 127
        \<and> \<bar>raw * 256 + value_div sdiv 2\<bar> < 2 ^ 31)"
proof -
  have "(666 :: int) sdiv 2 = 333"
    by (simp add: signed_divide_int_def)
  then have "\<bar>raw * 256 + value_div sdiv 2\<bar> < 2 ^ 31" if "- 32768 \<le> raw" "raw \<le> 65535"
    using that by (simp add: value_div_eq)
  then show ?thesis
    using value_div_eq value_div_round quantize_feature_value [of raw] by simp
qed

theorem feature_quantization_witness:
  "sint (quantize_feature 333) = 0 \<and> sint (quantize_feature 0) = - 128
   \<and> sint (quantize_feature 670) = 127"
proof -
  have v: "(333 * 256 + (666 :: int) sdiv 2) sdiv 666 - 128 = 0"
    "(0 * 256 + (666 :: int) sdiv 2) sdiv 666 - 128 = - 128"
    "(670 * 256 + (666 :: int) sdiv 2) sdiv 666 - 128 = 130"
    by (simp_all add: signed_divide_int_def)
  from feature_quantization [of 333] feature_quantization [of 0] feature_quantization [of 670] v
  show ?thesis by simp
qed

text \<open>The loop of \<open>generateMicroFeatures\<close> overwrites exactly the entries it is given.\<close>

lemma store_loop_length:
  "length (fold (\<lambda>i m. m[off + i := f (vs ! i)]) [0..<k] mem) = length mem"
  by (induction k) simp_all

lemma store_loop_nth:
  assumes "j < length mem"
  shows "fold (\<lambda>i m. m[off + i := f (vs ! i)]) [0..<k] mem ! j
           = (if off \<le> j \<and> j < off + k then f (vs ! (j - off)) else mem ! j)"
  using assms
proof (induction k)
  case 0
  then show ?case by auto
next
  case (Suc k)
  let ?m = "fold (\<lambda>i m. m[off + i := f (vs ! i)]) [0..<k] mem"
  have step: "fold (\<lambda>i m. m[off + i := f (vs ! i)]) [0..<Suc k] mem = ?m[off + k := f (vs ! k)]"
    by simp
  show ?case
  proof (cases "j = off + k")
    case True
    with Suc.prems show ?thesis
      by (simp add: step store_loop_length)
  next
    case False
    then have "(off \<le> j \<and> j < off + Suc k) = (off \<le> j \<and> j < off + k)"
      by auto
    with False Suc show ?thesis
      by (simp add: step)
  qed
qed

lemma store_loop_eq:
  assumes "off + length vs \<le> length mem"
  shows "fold (\<lambda>i m. m[off + i := f (vs ! i)]) [0..<length vs] mem
           = take off mem @ map f vs @ drop (off + length vs) mem"
proof (rule nth_equalityI)
  show "length (fold (\<lambda>i m. m[off + i := f (vs ! i)]) [0..<length vs] mem)
          = length (take off mem @ map f vs @ drop (off + length vs) mem)"
    using assms by (simp add: store_loop_length)
next
  fix j
  assume "j < length (fold (\<lambda>i m. m[off + i := f (vs ! i)]) [0..<length vs] mem)"
  then have j: "j < length mem"
    by (simp add: store_loop_length)
  show "fold (\<lambda>i m. m[off + i := f (vs ! i)]) [0..<length vs] mem ! j
          = (take off mem @ map f vs @ drop (off + length vs) mem) ! j"
    using j assms by (auto simp: store_loop_nth nth_append)
qed

text \<open>
  The move and the store together, for an array of \<open>c\<close> slices of \<open>n\<close> entries and
  a frontend that returns \<open>n\<close> values.
\<close>

lemma shift_and_generate:
  assumes len: "length mem = c * n" and c: "c \<noteq> 0"
    and fr: "frontend st input = (st', vals)" and vals: "length vals = n"
  shows "memmove mem 0 n ((c - 1) * n) = Some (drop n mem @ drop ((c - 1) * n) mem)"
    and "generateMicroFeatures frontend st input (drop n mem @ drop ((c - 1) * n) mem) ((c - 1) * n)
           = Some (st', drop n mem @ map quantize_feature vals)"
proof -
  from c have cn: "c * n = n + (c - 1) * n"
    by (cases c) simp_all
  have dl: "length (drop n mem) = (c - 1) * n"
    using len cn by simp
  show "memmove mem 0 n ((c - 1) * n) = Some (drop n mem @ drop ((c - 1) * n) mem)"
    using len cn dl by (simp add: memmove_def)
  let ?moved = "drop n mem @ drop ((c - 1) * n) mem"
  have ml: "length ?moved = c * n"
    using len cn by simp
  have "fold (\<lambda>i m. m[(c - 1) * n + i := quantize_feature (vals ! i)]) [0..<length vals] ?moved
          = take ((c - 1) * n) ?moved @ map quantize_feature vals
              @ drop ((c - 1) * n + length vals) ?moved"
    using ml cn vals by (intro store_loop_eq) simp
  also have "\<dots> = drop n mem @ map quantize_feature vals"
    using dl ml cn vals len by simp
  finally show "generateMicroFeatures frontend st input ?moved ((c - 1) * n)
           = Some (st', drop n mem @ map quantize_feature vals)"
    using fr ml cn vals by (simp add: generateMicroFeatures_def)
qed

lemma addSlice_result:
  assumes len: "length (p_feature_data w) = kFeatureSliceCount w * kFeatureSliceSize w"
    and c: "kFeatureSliceCount w \<noteq> 0"
    and fr: "frontend (g_micro_features_state w)
               (take (kMaxAudioSampleSize w) (buffer (p_buffer w))) = (st', vals)"
    and vals: "length vals = kFeatureSliceSize w"
  shows "\<exists>w'. addSlice frontend w = Some w'
           \<and> p_feature_data w'
               = drop (kFeatureSliceSize w) (p_feature_data w) @ map quantize_feature vals
           \<and> g_micro_features_state w' = st'"
  using shift_and_generate [of "p_feature_data w" "kFeatureSliceCount w" "kFeatureSliceSize w"
      frontend "g_micro_features_state w" "take (kMaxAudioSampleSize w) (buffer (p_buffer w))"
      st' vals, OF len c fr vals] c
  by (simp add: addSlice_def readArray_def Let_def)

text \<open>The feature provider of the template version shifts and appends in the same way.\<close>

lemma provider_addSlice_result:
  assumes len: "length (feature_data p)
                  = provider_kFeatureSliceCount p * provider_kFeatureSliceSize p"
    and c: "provider_kFeatureSliceCount p \<noteq> 0"
    and fr: "frontend (provider_g_micro_features_state p)
               (take (provider_kMaxAudioSampleSize p) (buffer (provider_p_buffer p))) = (st', vals)"
    and vals: "length vals = provider_kFeatureSliceSize p"
  shows "\<exists>p'. provider_addSlice frontend p = Some p'
           \<and> feature_data p'
               = drop (provider_kFeatureSliceSize p) (feature_data p) @ map quantize_feature vals
           \<and> provider_g_micro_features_state p' = st'"
  using shift_and_generate [of "feature_data p" "provider_kFeatureSliceCount p"
      "provider_kFeatureSliceSize p" frontend "provider_g_micro_features_state p"
      "take (provider_kMaxAudioSampleSize p) (buffer (provider_p_buffer p))"
      st' vals, OF len c fr vals] c
  by (simp add: provider_addSlice_def readArray_def Let_def)

text \<open>
  C4. One \<open>addSlice\<close> on a feature array of \<open>kFeatureSliceCount\<close> slices, with a
  frontend that returns one value per entry of a slice: the first
  \<open>kFeatureSliceCount - 1\<close> slices of the new array are the last
  \<open>kFeatureSliceCount - 1\<close> slices of the old one (slice \<open>k + 1\<close> becomes slice
  \<open>k\<close>), and the last slice holds the quantized values that the frontend
  computed from the samples just drained from the ring buffer.
\<close>

theorem addSlice_shifts_left:
  assumes "length (p_feature_data w) = kFeatureSliceCount w * kFeatureSliceSize w"
    and "kFeatureSliceCount w \<noteq> 0"
    and "frontend (g_micro_features_state w)
           (take (kMaxAudioSampleSize w) (buffer (p_buffer w))) = (st', vals)"
    and "length vals = kFeatureSliceSize w"
  shows "\<exists>w'. addSlice frontend w = Some w'
           \<and> length (p_feature_data w') = kFeatureSliceCount w * kFeatureSliceSize w
           \<and> take ((kFeatureSliceCount w - 1) * kFeatureSliceSize w) (p_feature_data w')
               = drop (kFeatureSliceSize w) (p_feature_data w)
           \<and> (\<forall>k < kFeatureSliceCount w - 1.
                 feature_slice (kFeatureSliceSize w) (p_feature_data w') k
                   = feature_slice (kFeatureSliceSize w) (p_feature_data w) (k + 1))
           \<and> feature_slice (kFeatureSliceSize w) (p_feature_data w') (kFeatureSliceCount w - 1)
               = map quantize_feature vals"
proof -
  define n where "n = kFeatureSliceSize w"
  define c where "c = kFeatureSliceCount w"
  define old where "old = p_feature_data w"
  from addSlice_result [where frontend = frontend and w = w, OF assms] obtain w' where w': "addSlice frontend w = Some w'"
    and new: "p_feature_data w' = drop n old @ map quantize_feature vals"
    by (auto simp: n_def old_def)
  from assms(2) have cn: "c * n = n + (c - 1) * n"
    by (cases c) (simp_all add: c_def)
  have dl: "length (drop n old) = (c - 1) * n"
    using assms(1) cn by (simp add: n_def c_def old_def)
  have vl: "length vals = n"
    using assms(4) by (simp add: n_def)
  have shifted: "feature_slice n (p_feature_data w') k = feature_slice n old (k + 1)"
    if "k < c - 1" for k
  proof -
    from that have "Suc k \<le> c - 1"
      by simp
    then have "Suc k * n \<le> (c - 1) * n"
      by (rule mult_le_mono1)
    then have "k * n + n \<le> length (drop n old)"
      using dl by simp
    then show ?thesis
      by (simp add: feature_slice_def new add.commute)
  qed
  have "length (p_feature_data w') = c * n"
    using dl vl cn by (simp add: new)
  moreover have "take ((c - 1) * n) (p_feature_data w') = drop n old"
    using dl by (simp add: new)
  moreover have "feature_slice n (p_feature_data w') (c - 1) = map quantize_feature vals"
    using dl vl by (simp add: feature_slice_def new)
  ultimately show ?thesis
    using w' shifted unfolding n_def c_def old_def by blast
qed

theorem addSlice_shifts_left_witness:
  "length (p_feature_data demo_writer_full)
     = kFeatureSliceCount demo_writer_full * kFeatureSliceSize demo_writer_full
   \<and> demo_frontend (g_micro_features_state demo_writer_full)
         (take (kMaxAudioSampleSize demo_writer_full) (buffer (p_buffer demo_writer_full)))
       = (1, [100, 4])
   \<and> p_feature_data demo_writer_full = [1, 2, 3, 4, 5, 6]
   \<and> map_option p_feature_data (addSlice demo_frontend demo_writer_full)
       = Some [3, 4, 5, 6, - 90, - 126]"
proof -
  have len: "length (p_feature_data demo_writer_full)
      = kFeatureSliceCount demo_writer_full * kFeatureSliceSize demo_writer_full"
    and cnt: "kFeatureSliceCount demo_writer_full \<noteq> 0"
    and fr: "demo_frontend (g_micro_features_state demo_writer_full)
         (take (kMaxAudioSampleSize demo_writer_full) (buffer (p_buffer demo_writer_full)))
       = (1, [100, 4])"
    and vals: "length [100, 4 :: int] = kFeatureSliceSize demo_writer_full"
    and old: "p_feature_data demo_writer_full = [1, 2, 3, 4, 5, 6]"
    by (simp_all add: demo_writer_full_def demo_writer_def demo_frontend_def)
  have sizes: "kFeatureSliceCount demo_writer_full = 3" "kFeatureSliceSize demo_writer_full = 2"
    by (simp_all add: demo_writer_full_def demo_writer_def)
  have q: "map quantize_feature [100, 4] = [- 90, - 126]"
    by code_simp
  from addSlice_shifts_left [where frontend = demo_frontend and w = demo_writer_full,
      OF len cnt fr vals] obtain w'
    where w': "addSlice demo_frontend demo_writer_full = Some w'"
      and first: "take ((kFeatureSliceCount demo_writer_full - 1) * kFeatureSliceSize demo_writer_full)
                    (p_feature_data w')
                  = drop (kFeatureSliceSize demo_writer_full) (p_feature_data demo_writer_full)"
      and last: "feature_slice (kFeatureSliceSize demo_writer_full) (p_feature_data w')
                   (kFeatureSliceCount demo_writer_full - 1) = map quantize_feature [100, 4]"
      and total: "length (p_feature_data w')
                  = kFeatureSliceCount demo_writer_full * kFeatureSliceSize demo_writer_full"
    by blast
  from first old sizes have a: "take 4 (p_feature_data w') = [3, 4, 5, 6]"
    by simp
  from last q sizes total have b: "drop 4 (p_feature_data w') = [- 90, - 126]"
    by (simp add: feature_slice_def)
  have "p_feature_data w' = take 4 (p_feature_data w') @ drop 4 (p_feature_data w')"
    by simp
  with a b have "p_feature_data w' = [3, 4, 5, 6, - 90, - 126]"
    by simp
  with w' len fr old show ?thesis
    by simp
qed

section \<open>Downmixing\<close>

lemma sint_int16_of_int:
  assumes "- (2 ^ 15) \<le> v" and "v < 2 ^ 15"
  shows "sint (word_of_int v :: int16_t) = v"
  using assms by (simp add: sint_sbintrunc' signed_take_bit_int_eq_self)

text \<open>The sum of the two halves always fits an \<open>int16_t\<close>.\<close>

lemma downmix_value: "sint (downmix a b) = sint a sdiv 2 + sint b sdiv 2"
proof -
  have a: "- (2 ^ 15) \<le> sint a" "sint a < 2 ^ 15"
    using sint_ge [of a] sint_lt [of a] by simp_all
  have b: "- (2 ^ 15) \<le> sint b" "sint b < 2 ^ 15"
    using sint_ge [of b] sint_lt [of b] by simp_all
  have "- (2 ^ 14) \<le> sint a sdiv 2" "sint a sdiv 2 < 2 ^ 14"
    using a by (auto simp: signed_divide_int_def sgn_if)
  moreover have "- (2 ^ 14) \<le> sint b sdiv 2" "sint b sdiv 2 < 2 ^ 14"
    using b by (auto simp: signed_divide_int_def sgn_if)
  ultimately have "- (2 ^ 15) \<le> sint a sdiv 2 + sint b sdiv 2"
    and "sint a sdiv 2 + sint b sdiv 2 < 2 ^ 15"
    by simp_all
  then show ?thesis
    unfolding downmix_def by (rule sint_int16_of_int)
qed

text \<open>
  The feature provider of the template version writes the average of each frame
  of two channels.
\<close>

lemma provider_write_frame:
  assumes "kAudioChannels p = 2" and "availableForWrite (provider_p_buffer p) > 0"
  shows "provider_write frontend p [a, b]
           = Some (0, p\<lparr>provider_p_buffer :=
                         (provider_p_buffer p)
                           \<lparr>buffer := buffer (provider_p_buffer p) @ [downmix a b]\<rparr>\<rparr>)"
  using assms by (simp add: ring_write_def)

text \<open>
  \<open>write1\<close> with more than one channel: \<open>channel\<close> is 0 again after every call,
  so every sample takes the branch that only stores \<open>last_value\<close>, and the ring
  buffer never receives a sample.
\<close>

lemma write1_two_channels:
  assumes "channels w \<noteq> 1" and "channel w = 0"
  shows "write1 w x = (availableForWrite (p_buffer w) > 0, w\<lparr>last_value := x, channel := 0\<rparr>)"
  using assms by (simp add: write1_def Let_def)

lemma write_samples_two_channels:
  assumes "channels w \<noteq> 1" and "channel w = 0"
  shows "p_buffer (snd (write_samples w xs)) = p_buffer w
         \<and> channel (snd (write_samples w xs)) = 0"
  using assms
proof (induction xs arbitrary: w)
  case Nil
  then show ?case by simp
next
  case (Cons x xs)
  let ?w1 = "w\<lparr>last_value := x, channel := 0\<rparr>"
  have "channels ?w1 \<noteq> 1" "channel ?w1 = 0"
    using Cons.prems by simp_all
  from Cons.IH [OF this] Cons.prems show ?case
    by (auto simp: write1_two_channels split: prod.splits)
qed

text \<open>
  C9. The claim: a frame \<open>(a, b)\<close> of two channels puts the one sample
  \<open>(a / 2) + (b / 2)\<close> into the ring buffer, and the input
  \<open>[100, 300, -50, 50]\<close> yields \<open>[200, 0]\<close>. The \<open>write\<close> of the feature provider
  does so. \<open>write1\<close> of the writer does not: after the four samples its ring
  buffer is still empty, and no call reported a full buffer.
\<close>

theorem two_channel_write1_drops_samples:
  "fst (write_samples demo_writer [100, 300, - 50, 50]) = [True, True, True, True]
   \<and> buffer (p_buffer (snd (write_samples demo_writer [100, 300, - 50, 50]))) = []
   \<and> map_option (\<lambda>(k, p). buffer (provider_p_buffer p))
        (provider_write demo_frontend demo_provider [100, 300, - 50, 50]) = Some [200, 0]"
  by code_simp

section \<open>The quantizer\<close>

lemma clip_nonneg: "0 \<le> v \<Longrightarrow> clip v rng = min v rng"
  by (simp add: clip_def min_def)

text \<open>
  For a negative value the test of the source is \<open>-value < -range\<close>, which is
  \<open>value > range\<close> and never holds when \<open>range\<close> is not negative.
\<close>

lemma clip_negative: "v < 0 \<Longrightarrow> 0 \<le> rng \<Longrightarrow> clip v rng = v"
  by (simp add: clip_def)

text \<open>
  C7. The claim: \<open>clip\<close> brings a value below \<open>-range\<close> up to \<open>-range\<close>, so that
  the result lies in \<open>[-range, range]\<close>. The source returns a negative value as
  it is: \<open>clip(-5, 2)\<close> is \<open>-5\<close>, below \<open>-2\<close>.
\<close>

theorem clip_leaves_negative_values:
  "clip (- 5) 2 = - 5 \<and> \<not> (- 2 \<le> clip (- 5) 2) \<and> clip 5 2 = 2"
  by (simp add: clip_def)

lemma float_to_int8_Some:
  "float_to_int8 y = Some q \<longleftrightarrow>
     - 129 < y \<and> y < 128 \<and> sint q = (if 0 \<le> y then \<lfloor>y\<rfloor> else \<lceil>y\<rceil>)"
proof -
  define k where "k = (if 0 \<le> y then \<lfloor>y\<rfloor> else \<lceil>y\<rceil>)"
  have range: "(- 128 \<le> k \<and> k \<le> 127) = (- 129 < y \<and> y < 128)"
    unfolding k_def by (auto; linarith)
  have inv: "sint (word_of_int k :: int8_t) = k" if "- 128 \<le> k" "k \<le> 127"
    using that by (rule sint_int8_of_int)
  have uniq: "q = word_of_int k" if "sint q = k" "- 128 \<le> k" "k \<le> 127"
  proof (rule signed_word_eqI)
    show "(signed q :: int) = signed (word_of_int k :: int8_t)"
      using that inv by simp
  qed
  show ?thesis
    using range inv uniq
    by (auto simp: float_to_int8_def Let_def k_def [symmetric])
qed

lemma trunc_error:
  fixes y :: real
  defines "k \<equiv> (if 0 \<le> y then \<lfloor>y\<rfloor> else \<lceil>y\<rceil>)"
  shows "\<bar>y - real_of_int k\<bar> < 1 \<and> \<bar>real_of_int k\<bar> \<le> \<bar>y\<bar>"
  unfolding k_def by (auto; linarith)

text \<open>
  C6, as the source has it. \<open>quantize\<close> converts the float \<open>y\<close> to \<open>int8_t\<close>,
  where \<open>y\<close> is \<open>v\<close> when \<open>scale\<close> and \<open>zero_point\<close> are 0 and
  \<open>v / scale + zero_point\<close>, in float arithmetic, otherwise. The conversion drops
  the fraction of \<open>y\<close>: the result is the integer next to \<open>y\<close> towards zero, less
  than 1 away from it. It does not round to the nearest integer and it does not
  saturate: there is a result only when \<open>y\<close> lies strictly between -129 and 128
  (and \<open>scale\<close> is not 0, unless \<open>zero_point\<close> is 0 too).
\<close>

theorem quantize_truncates:
  "quantize rnd v scale zero_point = Some q \<longleftrightarrow>
     (scale = 0 \<longrightarrow> zero_point = 0)
     \<and> (let y = (if scale = 0 \<and> zero_point = 0 then v else rnd (rnd (v / scale) + zero_point))
        in - 129 < y \<and> y < 128
           \<and> sint q = (if 0 \<le> y then \<lfloor>y\<rfloor> else \<lceil>y\<rceil>)
           \<and> \<bar>y - real_of_int (sint q)\<bar> < 1 \<and> \<bar>real_of_int (sint q)\<bar> \<le> \<bar>y\<bar>)"
proof -
  define y where "y = (if scale = 0 \<and> zero_point = 0 then v else rnd (rnd (v / scale) + zero_point))"
  have "quantize rnd v scale zero_point
          = (if scale = 0 \<and> zero_point \<noteq> 0 then None else float_to_int8 y)"
    by (simp add: quantize_def y_def)
  then have "quantize rnd v scale zero_point = Some q \<longleftrightarrow>
      (scale = 0 \<longrightarrow> zero_point = 0)
      \<and> - 129 < y \<and> y < 128 \<and> sint q = (if 0 \<le> y then \<lfloor>y\<rfloor> else \<lceil>y\<rceil>)"
    by (auto simp: float_to_int8_Some)
  moreover have "\<bar>y - real_of_int (sint q)\<bar> < 1 \<and> \<bar>real_of_int (sint q)\<bar> \<le> \<bar>y\<bar>"
    if "sint q = (if 0 \<le> y then \<lfloor>y\<rfloor> else \<lceil>y\<rceil>)"
    using trunc_error [of y] that by simp
  ultimately show ?thesis
    unfolding Let_def y_def [symmetric] by blast
qed

theorem quantize_truncates_witness:
  "quantize (\<lambda>x. x) (- 2.7) 0.5 3 = Some (- 2) \<and> (- 2.7 / 0.5 + 3 :: real) = - 2.4"
proof -
  have y: "(- 2.7 / 0.5 + 3 :: real) = - 2.4"
    by simp
  have "\<lceil>- 2.4 :: real\<rceil> = - 2"
    by linarith
  then have "((0.5 :: real) = 0 \<longrightarrow> (3 :: real) = 0)
     \<and> (let y = (if (0.5 :: real) = 0 \<and> (3 :: real) = 0 then - 2.7 else (- 2.7 / 0.5 + 3 :: real))
        in - 129 < y \<and> y < 128
           \<and> sint (- 2 :: int8_t) = (if 0 \<le> y then \<lfloor>y\<rfloor> else \<lceil>y\<rceil>)
           \<and> \<bar>y - real_of_int (sint (- 2 :: int8_t))\<bar> < 1
           \<and> \<bar>real_of_int (sint (- 2 :: int8_t))\<bar> \<le> \<bar>y\<bar>)"
    by (simp add: y)
  then have "quantize (\<lambda>x. x) (- 2.7) 0.5 3 = Some (- 2)"
    by (rule quantize_truncates [where rnd = "\<lambda>x. x", THEN iffD2])
  with y show ?thesis
    by simp
qed

text \<open>
  The claim as stated fails where float arithmetic is exact: \<open>1.75 / 1 + 0\<close>
  becomes 1, not the rounded 2; 300 has no result at all, where the claim
  saturates to 127; and with \<open>scale\<close> and \<open>zero_point\<close> 0 the value 0.5 comes
  back as 0.
\<close>

theorem quantize_does_not_round:
  "quantize (\<lambda>x. x) 1.75 1 0 = Some 1 \<and> round (1.75 / 1 :: real) + 0 = 2
   \<and> quantize (\<lambda>x. x) 300 1 0 = None
   \<and> quantize (\<lambda>x. x) 0.5 0 0 = Some 0"
  by (simp add: quantize_def float_to_int8_def round_def)

text \<open>
  In exact arithmetic, the value that comes back from a quantization and a
  dequantization is less than one \<open>scale\<close> away from the original.
\<close>

lemma round_trip_exact:
  assumes "0 < scale" and "quantize (\<lambda>x. x) x scale zero_point = Some q"
  shows "\<bar>dequantize (\<lambda>x. x) q scale zero_point - x\<bar> < scale"
proof -
  define y where "y = x / scale + zero_point"
  define d where "d = real_of_int (sint q)"
  from assms have "float_to_int8 y = Some q"
    by (simp add: quantize_def y_def)
  then have k: "sint q = (if 0 \<le> y then \<lfloor>y\<rfloor> else \<lceil>y\<rceil>)"
    by (simp add: float_to_int8_Some)
  from trunc_error [of y] have "\<bar>y - real_of_int (if 0 \<le> y then \<lfloor>y\<rfloor> else \<lceil>y\<rceil>)\<bar> < 1"
    by blast
  then have err: "\<bar>y - d\<bar> < 1"
    by (simp only: k d_def)
  have deq: "dequantize (\<lambda>x. x) q scale zero_point = (d - zero_point) * scale"
    using assms(1) by (simp add: dequantize_def d_def)
  have x: "x = (y - zero_point) * scale"
    using assms(1) by (simp add: y_def)
  have "dequantize (\<lambda>x. x) q scale zero_point - x = (d - y) * scale"
    unfolding deq by (subst x) (simp add: algebra_simps)
  then have "\<bar>dequantize (\<lambda>x. x) q scale zero_point - x\<bar> = \<bar>y - d\<bar> * scale"
    using assms(1) by (simp add: abs_mult abs_minus_commute)
  also have "\<dots> < 1 * scale"
    using err assms(1) by (intro mult_strict_right_mono)
  finally show ?thesis
    by simp
qed

text \<open>
  The rounding \<open>binary32\<close> moves a value \<open>v\<close> by at most \<open>\<bar>v\<bar> / 2 ^ 24\<close>: the
  exponent found is not above the value, and rounding to the nearest multiple of
  the unit in the last place moves a value by at most half of that unit.
\<close>

declare exponent_up.simps [simp del] exponent_down.simps [simp del]

lemma round_even_error: "\<bar>real_of_int (round_even w) - w\<bar> \<le> 1 / 2"
proof -
  have "real_of_int \<lfloor>w\<rfloor> \<le> w" "w < real_of_int \<lfloor>w\<rfloor> + 1"
    by linarith+
  then show ?thesis
    by (auto simp: round_even_def Let_def)
qed

lemma exponent_up_bound: "1 \<le> m \<Longrightarrow> 0 \<le> exponent_up m \<and> 2 ^ nat (exponent_up m) \<le> m"
proof (induction m rule: exponent_up.induct)
  case (1 m)
  show ?case
  proof (cases "2 \<le> m")
    case True
    then have "1 \<le> m / 2" by simp
    from 1(1) [OF True this] have ih: "0 \<le> exponent_up (m / 2)"
      "2 ^ nat (exponent_up (m / 2)) \<le> m / 2"
      by simp_all
    have e: "exponent_up m = exponent_up (m / 2) + 1"
      using True by (subst exponent_up.simps) simp
    have "nat (exponent_up (m / 2) + 1) = Suc (nat (exponent_up (m / 2)))"
      using ih(1) by simp
    with ih show ?thesis
      by (simp add: e)
  next
    case False
    then have "exponent_up m = 0"
      by (subst exponent_up.simps) simp
    with 1(2) show ?thesis
      by simp
  qed
qed

lemma exponent_down_bound:
  "0 < m \<Longrightarrow> m < 1 \<Longrightarrow> exponent_down m \<le> - 1 \<and> 1 / 2 ^ nat (- exponent_down m) \<le> m"
proof (induction m rule: exponent_down.induct)
  case (1 m)
  have e: "exponent_down m = exponent_down (2 * m) - 1"
    using 1(2,3) by (subst exponent_down.simps) simp
  show ?case
  proof (cases "2 * m < 1")
    case True
    from 1(1) [of ] 1(2,3) True have ih: "exponent_down (2 * m) \<le> - 1"
      "1 / 2 ^ nat (- exponent_down (2 * m)) \<le> 2 * m"
      by simp_all
    have "nat (- (exponent_down (2 * m) - 1)) = Suc (nat (- exponent_down (2 * m)))"
      using ih(1) by simp
    with ih show ?thesis
      by (simp add: e field_simps)
  next
    case False
    then have "exponent_down (2 * m) = 0"
      by (subst exponent_down.simps) simp
    with False show ?thesis
      by (simp add: e)
  qed
qed

lemma binary32_error: "\<bar>binary32 v - v\<bar> \<le> \<bar>v\<bar> / 2 ^ 24"
proof (cases "v = 0")
  case True
  then show ?thesis
    by (simp add: binary32_def)
next
  case False
  define e where "e = (if 1 \<le> \<bar>v\<bar> then exponent_up \<bar>v\<bar> else exponent_down \<bar>v\<bar>)"
  define ulp :: real where "ulp = (if 23 \<le> e then 2 ^ nat (e - 23) else 1 / 2 ^ nat (23 - e))"
  have b: "binary32 v = ulp * real_of_int (round_even (v / ulp))"
    using False by (simp add: binary32_def Let_def e_def ulp_def)
  have pos: "0 < ulp"
    by (simp add: ulp_def)
  have low: "ulp * 2 ^ 23 \<le> \<bar>v\<bar>"
  proof (cases "1 \<le> \<bar>v\<bar>")
    case True
    then have e0: "0 \<le> e" and p: "2 ^ nat e \<le> \<bar>v\<bar>"
      using exponent_up_bound [of "\<bar>v\<bar>"] by (simp_all add: e_def)
    show ?thesis
    proof (cases "23 \<le> e")
      case True
      then have "nat e = nat (e - 23) + 23"
        by simp
      then have "(2 :: real) ^ nat e = 2 ^ nat (e - 23) * 2 ^ 23"
        by (simp only: power_add)
      with p True show ?thesis
        by (simp add: ulp_def)
    next
      case False
      with e0 have "nat (23 - e) + nat e = 23"
        by simp
      then have "(2 :: real) ^ nat (23 - e) * 2 ^ nat e = 2 ^ 23"
        by (simp only: power_add [symmetric])
      then have "ulp * 2 ^ 23 = 2 ^ nat e"
        using False by (simp add: ulp_def field_simps)
      with p show ?thesis
        by simp
    qed
  next
    case False
    with \<open>v \<noteq> 0\<close> have "0 < \<bar>v\<bar>" "\<bar>v\<bar> < 1"
      by simp_all
    then have e1: "e \<le> - 1" and p: "1 / 2 ^ nat (- e) \<le> \<bar>v\<bar>"
      using exponent_down_bound [of "\<bar>v\<bar>"] False by (simp_all add: e_def)
    from e1 have "nat (23 - e) = 23 + nat (- e)"
      by simp
    then have "(2 :: real) ^ nat (23 - e) = 2 ^ 23 * 2 ^ nat (- e)"
      by (simp only: power_add)
    then have "ulp * 2 ^ 23 = 1 / 2 ^ nat (- e)"
      using e1 by (simp add: ulp_def field_simps)
    with p show ?thesis
      by simp
  qed
  have "binary32 v - v = ulp * (real_of_int (round_even (v / ulp)) - v / ulp)"
    using pos by (simp add: b algebra_simps)
  then have "\<bar>binary32 v - v\<bar> = ulp * \<bar>real_of_int (round_even (v / ulp)) - v / ulp\<bar>"
    using pos by (simp add: abs_mult)
  also have "\<dots> \<le> ulp * (1 / 2)"
    using round_even_error [of "v / ulp"] pos by (intro mult_left_mono) simp_all
  also have "\<dots> = ulp * 2 ^ 23 / 2 ^ 24"
    by simp
  also have "\<dots> \<le> \<bar>v\<bar> / 2 ^ 24"
    using low by (intro divide_right_mono) simp_all
  finally show ?thesis .
qed


text \<open>
  A float that converts to an \<open>int8_t\<close> is less than 1 away from it and below
  129 in magnitude.
\<close>

lemma float_to_int8_range:
  assumes "float_to_int8 y = Some q"
  shows "\<bar>y - real_of_int (sint q)\<bar> < 1 \<and> \<bar>y\<bar> < 129 \<and> \<bar>real_of_int (sint q)\<bar> \<le> 128"
proof -
  from assms have y: "- 129 < y" "y < 128"
    and k: "sint q = (if 0 \<le> y then \<lfloor>y\<rfloor> else \<lceil>y\<rceil>)"
    by (simp_all add: float_to_int8_Some)
  from trunc_error [of y] have "\<bar>y - real_of_int (if 0 \<le> y then \<lfloor>y\<rfloor> else \<lceil>y\<rceil>)\<bar> < 1"
    by blast
  then have "\<bar>y - real_of_int (sint q)\<bar> < 1"
    by (simp only: k)
  moreover have "- 128 \<le> sint q" "sint q \<le> 127"
    using sint_ge [of q] sint_lt [of q] by simp_all
  then have "\<bar>real_of_int (sint q)\<bar> \<le> 128"
    by linarith
  ultimately show ?thesis
    using y by linarith
qed


text \<open>
  C5, as the source has it. \<open>quantize\<close> rounds twice, after the division by
  \<open>scale\<close> and after the addition of \<open>zero_point\<close>, and \<open>dequantize\<close> twice, after
  the subtraction of \<open>zero_point\<close> and after the multiplication by \<open>scale\<close>. When
  \<open>scale\<close> is positive, \<open>quantize\<close> has a result, and each of these four
  operations rounds its exact result \<open>v\<close> to a float at most \<open>\<bar>v\<bar> / 2 ^ 24\<close> away
  from it (as \<open>binary32\<close> does for every \<open>v\<close>), the value that comes back from the
  round trip is less than \<open>scale * (1 + (130 + \<bar>zero_point\<bar>) / 2 ^ 22)\<close> away from
  the original: one quantization step and the rounding errors, which grow with
  the zero point.
\<close>

theorem round_trip_rounded:
  fixes rnd :: "real \<Rightarrow> real"
  assumes s: "0 < scale" and quant: "quantize rnd x scale zero_point = Some q"
    and r1: "\<bar>rnd (x / scale) - x / scale\<bar> \<le> \<bar>x / scale\<bar> / 2 ^ 24"
    and r2: "\<bar>rnd (rnd (x / scale) + zero_point) - (rnd (x / scale) + zero_point)\<bar>
              \<le> \<bar>rnd (x / scale) + zero_point\<bar> / 2 ^ 24"
    and r3: "\<bar>rnd (real_of_int (sint q) - zero_point) - (real_of_int (sint q) - zero_point)\<bar>
              \<le> \<bar>real_of_int (sint q) - zero_point\<bar> / 2 ^ 24"
    and r4: "\<bar>rnd (rnd (real_of_int (sint q) - zero_point) * scale)
               - rnd (real_of_int (sint q) - zero_point) * scale\<bar>
              \<le> \<bar>rnd (real_of_int (sint q) - zero_point) * scale\<bar> / 2 ^ 24"
  shows "\<bar>dequantize rnd q scale zero_point - x\<bar> < scale * (1 + (130 + \<bar>zero_point\<bar>) / 2 ^ 22)"
proof -
  define a where "a = x / scale"
  define a1 where "a1 = rnd a"
  define y where "y = rnd (a1 + zero_point)"
  define k where "k = real_of_int (sint q)"
  define b where "b = rnd (k - zero_point)"
  define d where "d = rnd (b * scale)"
  define Z where "Z = \<bar>zero_point\<bar>"
  from s quant have "float_to_int8 y = Some q"
    by (simp add: quantize_def y_def a1_def a_def)
  from float_to_int8_range [OF this]
  have ky: "\<bar>y - k\<bar> < 1" and yb: "\<bar>y\<bar> < 129" and kb: "\<bar>k\<bar> \<le> 128"
    by (simp_all add: k_def)
  have e1: "\<bar>a1 - a\<bar> \<le> \<bar>a\<bar> / 2 ^ 24"
    using r1 by (simp only: a1_def a_def)
  have e2: "\<bar>y - (a1 + zero_point)\<bar> \<le> \<bar>a1 + zero_point\<bar> / 2 ^ 24"
    using r2 by (simp only: y_def a1_def a_def)
  have e3: "\<bar>b - (k - zero_point)\<bar> \<le> \<bar>k - zero_point\<bar> / 2 ^ 24"
    using r3 by (simp only: b_def k_def)
  have e4: "\<bar>d - b * scale\<bar> \<le> \<bar>b\<bar> / 2 ^ 24 * scale"
  proof -
    have "\<bar>d - b * scale\<bar> \<le> \<bar>b * scale\<bar> / 2 ^ 24"
      using r4 by (simp only: d_def b_def k_def)
    also have "\<bar>b * scale\<bar> / 2 ^ 24 = \<bar>b\<bar> / 2 ^ 24 * scale"
      using s by (simp add: abs_mult)
    finally show ?thesis .
  qed
  have deq: "dequantize rnd q scale zero_point = d"
    using s by (simp add: dequantize_def d_def b_def k_def)
  have x: "x = a * scale"
    using s by (simp add: a_def)
  define t where "t = (b - (k - zero_point)) + (k - y) + (y - (a1 + zero_point)) + (a1 - a)"
  have split: "d - x = (d - b * scale) + t * scale"
    by (simp add: x t_def algebra_simps)
  have tb: "\<bar>t\<bar> \<le> \<bar>b - (k - zero_point)\<bar> + \<bar>k - y\<bar> + \<bar>y - (a1 + zero_point)\<bar> + \<bar>a1 - a\<bar>"
    unfolding t_def by linarith
  have R: "\<bar>k - zero_point\<bar> \<le> 128 + Z"
    using kb unfolding Z_def by linarith
  have B: "\<bar>b\<bar> \<le> \<bar>k - zero_point\<bar> / 2 ^ 24 + \<bar>k - zero_point\<bar>"
    using e3 by linarith
  have Q: "\<bar>a1 + zero_point\<bar> \<le> \<bar>a1 + zero_point\<bar> / 2 ^ 24 + 129"
    using e2 yb by linarith
  have P: "\<bar>a\<bar> \<le> \<bar>a\<bar> / 2 ^ 24 + \<bar>a1 + zero_point\<bar> + Z"
    using e1 unfolding Z_def by linarith
  have Z0: "0 \<le> Z"
    by (simp add: Z_def)
  have mags: "\<bar>b\<bar> + \<bar>k - zero_point\<bar> + \<bar>a1 + zero_point\<bar> + \<bar>a\<bar> \<le> 520 + 4 * Z"
  proof -
    define vb where "vb = \<bar>b\<bar>"
    define vr where "vr = \<bar>k - zero_point\<bar>"
    define vq where "vq = \<bar>a1 + zero_point\<bar>"
    define vp where "vp = \<bar>a\<bar>"
    have "vr \<le> 128 + Z" "vb \<le> vr / 2 ^ 24 + vr" "vq \<le> vq / 2 ^ 24 + 129"
      "vp \<le> vp / 2 ^ 24 + vq + Z"
      using R B Q P by (simp_all add: vb_def vr_def vq_def vp_def)
    then have "vb + vr + vq + vp \<le> 520 + 4 * Z"
      using Z0 by simp
    then show ?thesis
      by (simp add: vb_def vr_def vq_def vp_def)
  qed
  have "\<bar>t * scale\<bar> = \<bar>t\<bar> * scale"
    using s by (simp add: abs_mult)
  then have "\<bar>d - x\<bar> \<le> \<bar>d - b * scale\<bar> + \<bar>t\<bar> * scale"
    unfolding split using abs_triangle_ineq [of "d - b * scale" "t * scale"] by simp
  also have "\<dots> \<le> \<bar>b\<bar> / 2 ^ 24 * scale + \<bar>t\<bar> * scale"
    using e4 by simp
  also have "\<dots> = (\<bar>b\<bar> / 2 ^ 24 + \<bar>t\<bar>) * scale"
    by (simp add: algebra_simps)
  also have "\<dots> < (1 + (130 + Z) / 2 ^ 22) * scale"
  proof (rule mult_strict_right_mono [OF _ s])
    have "\<bar>t\<bar> \<le> \<bar>k - zero_point\<bar> / 2 ^ 24 + \<bar>k - y\<bar> + \<bar>a1 + zero_point\<bar> / 2 ^ 24
             + \<bar>a\<bar> / 2 ^ 24"
      using tb e1 e2 e3 by linarith
    moreover have "\<bar>k - y\<bar> < 1"
      using ky by (simp add: abs_minus_commute)
    ultimately have "\<bar>b\<bar> / 2 ^ 24 + \<bar>t\<bar>
        < 1 + (\<bar>b\<bar> + \<bar>k - zero_point\<bar> + \<bar>a1 + zero_point\<bar> + \<bar>a\<bar>) / 2 ^ 24"
      by (simp add: add_divide_distrib)
    also have "\<dots> \<le> 1 + (520 + 4 * Z) / 2 ^ 24"
      using mags by (simp add: divide_right_mono)
    also have "\<dots> = 1 + (130 + Z) / 2 ^ 22"
      by simp
    finally show "\<bar>b\<bar> / 2 ^ 24 + \<bar>t\<bar> < 1 + (130 + Z) / 2 ^ 22" .
  qed
  finally show ?thesis
    by (simp add: deq Z_def mult.commute)
qed



theorem round_trip_rounded_witness:
  "0 < round_trip_scale
   \<and> quantize binary32 round_trip_x round_trip_scale (- 49) = Some 10
   \<and> \<bar>dequantize binary32 10 round_trip_scale (- 49) - round_trip_x\<bar>
       < round_trip_scale * (1 + (130 + \<bar>- 49\<bar>) / 2 ^ 22)"
proof -
  have s: "0 < round_trip_scale"
    by code_simp
  have quant: "quantize binary32 round_trip_x round_trip_scale (- 49) = Some 10"
    by code_simp
  have r1: "\<bar>binary32 (round_trip_x / round_trip_scale) - round_trip_x / round_trip_scale\<bar>
              \<le> \<bar>round_trip_x / round_trip_scale\<bar> / 2 ^ 24"
    by (rule binary32_error)
  have r2: "\<bar>binary32 (binary32 (round_trip_x / round_trip_scale) + (- 49))
              - (binary32 (round_trip_x / round_trip_scale) + (- 49))\<bar>
              \<le> \<bar>binary32 (round_trip_x / round_trip_scale) + (- 49)\<bar> / 2 ^ 24"
    by (rule binary32_error)
  have r3: "\<bar>binary32 (real_of_int (sint (10 :: int8_t)) - (- 49))
              - (real_of_int (sint (10 :: int8_t)) - (- 49))\<bar>
              \<le> \<bar>real_of_int (sint (10 :: int8_t)) - (- 49)\<bar> / 2 ^ 24"
    by (rule binary32_error)
  have r4: "\<bar>binary32 (binary32 (real_of_int (sint (10 :: int8_t)) - (- 49)) * round_trip_scale)
              - binary32 (real_of_int (sint (10 :: int8_t)) - (- 49)) * round_trip_scale\<bar>
              \<le> \<bar>binary32 (real_of_int (sint (10 :: int8_t)) - (- 49)) * round_trip_scale\<bar> / 2 ^ 24"
    by (rule binary32_error)
  from round_trip_rounded [OF s quant r1 r2 r3 r4] s quant show ?thesis
    by (intro conjI)
qed


text \<open>
  The claim as stated fails in binary32. The floats \<open>x = 5365917 / 2 ^ 15\<close>
  (about 163.7548) and \<open>scale = 5723645 / 2 ^ 21\<close> (about 2.7292466) with the zero
  point -49 give the quotient 59.99999..., which rounds to \<open>15728639 / 2 ^ 18\<close>,
  just below 60; the sum with -49 is below 11 and truncates to 10, and 10 comes
  back as \<open>59 * scale\<close> rounded, which is \<open>11179 / 4096\<close> (about 2.7292480) below
  \<open>x\<close>: more than \<open>scale\<close>.
\<close>

theorem round_trip_exceeds_scale:
  "0 < round_trip_scale
   \<and> binary32 round_trip_x = round_trip_x \<and> binary32 round_trip_scale = round_trip_scale
   \<and> binary32 (- 49) = - 49
   \<and> quantize binary32 round_trip_x round_trip_scale (- 49) = Some 10
   \<and> \<bar>dequantize binary32 10 round_trip_scale (- 49) - round_trip_x\<bar> = 11179 / 4096
   \<and> round_trip_scale < 11179 / 4096"
  by code_simp

end
